theory Spec2Isabelle
  imports Main "HOL-Library.List_Lexorder" "HOL-Library.Option_ord" "HOL-Library.Multiset"
    "HOL-Library.Word"
begin

section \<open>Strings\<close>

text \<open>
  A Python \<open>str\<close> is a sequence of Unicode code points; it is modelled as a list of
  natural numbers, one per code point. \<open>str\<close> turns an ASCII literal into such a list.
\<close>

type_synonym pystr = "nat list"

definition str :: "string \<Rightarrow> pystr" where
  "str s = map of_char s"

text \<open>
  \<open>str.isspace()\<close> on one character: the code points CPython classifies as
  whitespace (tab to carriage return, the four separators FS to US, the space, NEL,
  the no-break space and the Unicode space separators).
\<close>

definition isspace :: "nat \<Rightarrow> bool" where
  "isspace c \<longleftrightarrow>
     (9 \<le> c \<and> c \<le> 13) \<or> (28 \<le> c \<and> c \<le> 32) \<or> c = 133 \<or> c = 160 \<or> c = 5760 \<or>
     (8192 \<le> c \<and> c \<le> 8202) \<or> c = 8232 \<or> c = 8233 \<or> c = 8239 \<or> c = 8287 \<or>
     c = 12288"

text \<open>The double quote \<open>'"'\<close> and the separator \<open>" "\<close> of the final join.\<close>

definition dquote :: nat where
  "dquote = 34"

definition space :: nat where
  "space = 32"

text \<open>\<open>s.strip()\<close>: whitespace removed at both ends.\<close>

definition strip :: "pystr \<Rightarrow> pystr" where
  "strip s = rev (dropWhile isspace (rev (dropWhile isspace s)))"

text \<open>
  \<open>s.find(c, start)\<close> for a one-character needle: the lowest index at or after
  \<open>start\<close> holding \<open>c\<close>. Python's \<open>-1\<close> is \<open>None\<close> here.
\<close>

definition find_char :: "nat \<Rightarrow> pystr \<Rightarrow> nat \<Rightarrow> nat option" where
  "find_char c s start =
     (if c \<in> set (drop start s)
      then Some (start + length (takeWhile (\<lambda>x. x \<noteq> c) (drop start s)))
      else None)"

text \<open>The slice \<open>s[a:b]\<close> for indices \<open>0 \<le> a\<close>, \<open>0 \<le> b\<close>.\<close>

definition slice :: "pystr \<Rightarrow> nat \<Rightarrow> nat \<Rightarrow> pystr" where
  "slice s a b = take (b - a) (drop a s)"

text \<open>\<open>sep.join(tokens)\<close>.\<close>

fun join :: "pystr \<Rightarrow> pystr list \<Rightarrow> pystr" where
  "join sep [] = []"
| "join sep [t] = t"
| "join sep (t # ts) = t @ sep @ join sep ts"

section \<open>The query sanitizer\<close>

text \<open>
  The inner loop of \<open>_escape_fts_query\<close>:
  \<^verbatim>\<open>while i < len(chars) and not chars[i].isspace() and chars[i] != '"': i += 1\<close>
  It returns the final value of \<open>i\<close>.
\<close>

function scan_token :: "pystr \<Rightarrow> nat \<Rightarrow> nat" where
  "scan_token chars i =
     (if i < length chars \<and> \<not> isspace (chars ! i) \<and> chars ! i \<noteq> dquote
      then scan_token chars (i + 1) else i)"
  by pat_completeness auto
termination
  by (relation "measure (\<lambda>(chars, i). length chars - i)") auto

declare scan_token.simps [simp del]

lemma scan_token_le: "i \<le> scan_token chars i"
proof (induction chars i rule: scan_token.induct)
  case (1 chars i)
  show ?case
  proof (cases "i < length chars \<and> \<not> isspace (chars ! i) \<and> chars ! i \<noteq> dquote")
    case True
    with "1.IH" have "i + 1 \<le> scan_token chars (i + 1)" by simp
    with True show ?thesis by (subst scan_token.simps) simp
  next
    case False
    then show ?thesis by (subst scan_token.simps) auto
  qed
qed

lemma scan_token_bound: "i \<le> length chars \<Longrightarrow> scan_token chars i \<le> length chars"
proof (induction chars i rule: scan_token.induct)
  case (1 chars i)
  show ?case
  proof (cases "i < length chars \<and> \<not> isspace (chars ! i) \<and> chars ! i \<noteq> dquote")
    case True
    with "1.IH" have "scan_token chars (i + 1) \<le> length chars" by simp
    with True show ?thesis by (subst scan_token.simps) simp
  next
    case False
    with "1.prems" show ?thesis by (subst scan_token.simps) auto
  qed
qed

lemma scan_token_progress:
  assumes "i < length chars" "\<not> isspace (chars ! i)" "chars ! i \<noteq> dquote"
  shows "i < scan_token chars i"
proof -
  have "scan_token chars i = scan_token chars (i + 1)"
    using assms by (subst scan_token.simps) simp
  moreover have "i + 1 \<le> scan_token chars (i + 1)"
    by (rule scan_token_le)
  ultimately show ?thesis by simp
qed

lemma takeWhile_neq_less: "c \<in> set xs \<Longrightarrow> length (takeWhile (\<lambda>x. x \<noteq> c) xs) < length xs"
  by (induction xs) auto

lemma find_char_range:
  assumes "find_char c s start = Some e"
  shows "start \<le> e" and "e < length s"
proof -
  let ?d = "drop start s"
  from assms have mem: "c \<in> set ?d"
    and e: "e = start + length (takeWhile (\<lambda>x. x \<noteq> c) ?d)"
    by (auto simp: find_char_def split: if_splits)
  show "start \<le> e" using e by simp
  from mem have "length (takeWhile (\<lambda>x. x \<noteq> c) ?d) < length ?d"
    by (rule takeWhile_neq_less)
  then show "e < length s" using e by simp
qed

text \<open>
  The main loop of \<open>_escape_fts_query\<close>, with the loop variables \<open>i\<close> and
  \<open>tokens\<close> as arguments. The \<open>break\<close> after an unterminated quote is the branch
  that returns without a recursive call.
\<close>

function tokenize :: "pystr \<Rightarrow> nat \<Rightarrow> pystr list \<Rightarrow> pystr list" where
  "tokenize chars i tokens =
     (if i < length chars then
        if isspace (chars ! i) then tokenize chars (i + 1) tokens
        else if chars ! i = dquote then
          (case find_char dquote chars (i + 1) of
             None \<Rightarrow> tokens @ [[dquote] @ drop (i + 1) chars @ [dquote]]
           | Some e \<Rightarrow> tokenize chars (e + 1) (tokens @ [slice chars i (e + 1)]))
        else
          tokenize chars (scan_token chars i)
            (tokens @ [[dquote] @ slice chars i (scan_token chars i) @ [dquote]])
      else tokens)"
  by pat_completeness auto
termination
proof (relation "measure (\<lambda>(chars, i, tokens). length chars - i)", goal_cases)
  case 1
  show ?case by simp
next
  case (2 chars i tokens)
  then show ?case by simp
next
  case (3 chars i tokens e)
  from find_char_range [OF 3(4)] 3(1) show ?case by simp
next
  case (4 chars i tokens)
  from scan_token_progress [OF 4(1) 4(2) 4(3)] 4(1) show ?case by simp
qed

declare tokenize.simps [simp del]

text \<open>
  \<open>_escape_fts_query\<close>: the empty string for an empty or all-whitespace query,
  otherwise the tokens of the stripped query joined by single spaces.
\<close>

definition escape_fts_query :: "pystr \<Rightarrow> pystr" where
  "escape_fts_query query =
     (if query = [] \<or> strip query = [] then []
      else join [space] (tokenize (strip query) 0 []))"

section \<open>The store\<close>

text \<open>
  The SQLite store the queries read. A table is the list of its rows, in the order in
  which a scan of the table yields them. A nullable column is an \<open>option\<close>, \<open>None\<close>
  being SQL's \<open>NULL\<close>; the session identifier is the key and always present. The
  columns of \<open>sessions\<close> carry the prefix \<open>s_\<close>, after the alias \<open>s\<close> of the
  statements. Text read from the store is well-formed Unicode: SQLite hands it over as
  UTF-8, which has no surrogate code point.
\<close>

record session =
  s_session_id :: pystr
  s_project :: "pystr option"
  s_project_name :: "pystr option"
  s_title :: "pystr option"
  s_title_display :: "pystr option"
  s_client :: "pystr option"
  s_tags :: "pystr option"
  s_exchange_count :: "int option"
  s_start_time :: "pystr option"
  s_duration_minutes :: "int option"
  s_has_compaction :: "int option"

record topic_row =
  tp_session_id :: pystr
  tp_topic :: "pystr option"
  tp_captured_at :: "pystr option"
  tp_exchange_number :: "int option"
  tp_source :: "pystr option"

record tool_row =
  tl_session_id :: pystr
  tl_tool_name :: "pystr option"
  tl_use_count :: "int option"

record agent_row =
  ag_session_id :: pystr
  ag_agent_name :: "pystr option"

text \<open>
  SQL leaves open in which order \<open>ORDER BY\<close> returns rows with equal keys: it follows
  from the plan the engine chooses, and so from indexes declared in a schema that is
  not part of the source. The field \<open>tie_order\<close> is that choice for the statement of
  \<open>find\<close>: of two sessions with the same start time, the one with the smaller rank
  comes first.
\<close>

record db =
  sessions :: "session list"
  session_topics :: "topic_row list"
  session_tools :: "tool_row list"
  session_agents :: "agent_row list"
  tie_order :: "session \<Rightarrow> nat"

text \<open>
  The exceptions the modelled code can raise:
  \<^item> \<open>OperationalError\<close>: SQLite rejects or aborts a statement;
  \<^item> \<open>OverflowError\<close>: date arithmetic out of range, or an integer parameter that
    does not fit SQLite's 64-bit \<open>INTEGER\<close>;
  \<^item> \<open>UnicodeEncodeError\<close>: a text parameter that has no UTF-8 encoding;
  \<^item> \<open>TypeError\<close>: \<open>None\<close> where formatting needs a string.
\<close>

datatype error = OperationalError | OverflowError | UnicodeEncodeError | TypeError

subsection \<open>Binding parameters\<close>

text \<open>
  \<open>execute\<close> binds the parameters in their order before the statement runs. A Python
  string is encoded as UTF-8, which fails on a lone surrogate (the code points
  \<open>U+D800\<close> to \<open>U+DFFF\<close>, as they come out of an undecodable command-line argument).
\<close>

definition is_surrogate :: "nat \<Rightarrow> bool" where
  "is_surrogate c \<longleftrightarrow> 55296 \<le> c \<and> c \<le> 57343"

definition bind_text :: "pystr \<Rightarrow> error + pystr" where
  "bind_text s = (if list_ex is_surrogate s then Inl UnicodeEncodeError else Inr s)"

text \<open>A Python \<open>int\<close> is bound as a signed 64-bit integer, which fails outside its
  range.\<close>

definition bind_int :: "int \<Rightarrow> error + 64 word" where
  "bind_int n =
     (if - (2 ^ 63) \<le> n \<and> n < 2 ^ 63 then Inr (word_of_int n) else Inl OverflowError)"

subsection \<open>SQL expressions\<close>

text \<open>SQL's three-valued logic: \<open>None\<close> is \<open>NULL\<close>.\<close>

fun sql_or :: "bool option \<Rightarrow> bool option \<Rightarrow> bool option" where
  "sql_or (Some True) _ = Some True"
| "sql_or _ (Some True) = Some True"
| "sql_or (Some False) (Some False) = Some False"
| "sql_or _ _ = None"

fun sql_not :: "bool option \<Rightarrow> bool option" where
  "sql_not None = None"
| "sql_not (Some b) = Some (\<not> b)"

text \<open>
  SQLite's \<open>LIKE\<close>. Its matcher works on C strings: \<open>%\<close> matches any run of
  characters, \<open>_\<close> exactly one, every other character itself, upper and lower case
  ASCII letters being equal. No escape character is in force, since the statements give
  none.
\<close>

definition percent :: nat where
  "percent = 37"

definition underscore :: nat where
  "underscore = 95"

definition ascii_lower :: "nat \<Rightarrow> nat" where
  "ascii_lower c = (if 65 \<le> c \<and> c \<le> 90 then c + 32 else c)"

fun pattern_compare :: "pystr \<Rightarrow> pystr \<Rightarrow> bool" where
  "pattern_compare [] [] = True"
| "pattern_compare [] (c # cs) = False"
| "pattern_compare (p # ps) [] = (p = percent \<and> pattern_compare ps [])"
| "pattern_compare (p # ps) (c # cs) =
     (if p = percent then pattern_compare ps (c # cs) \<or> pattern_compare (p # ps) cs
      else if p = underscore then pattern_compare ps cs
      else ascii_lower p = ascii_lower c \<and> pattern_compare ps cs)"

text \<open>What the matcher reads of a text: the C string, which ends at the first
  \<open>NUL\<close>.\<close>

definition c_string :: "pystr \<Rightarrow> pystr" where
  "c_string s = takeWhile (\<lambda>c. c \<noteq> 0) s"

text \<open>The number of bytes of the UTF-8 encoding.\<close>

definition utf8_len :: "nat \<Rightarrow> nat" where
  "utf8_len c = (if c < 128 then 1 else if c < 2048 then 2 else if c < 65536 then 3 else 4)"

definition utf8_bytes :: "pystr \<Rightarrow> nat" where
  "utf8_bytes s = sum_list (map utf8_len s)"

text \<open>\<open>SQLITE_MAX_LIKE_PATTERN_LENGTH\<close>, in bytes.\<close>

definition max_like_pattern_length :: nat where
  "max_like_pattern_length = 50000"

text \<open>
  One evaluation of \<open>text LIKE pattern\<close> on two texts: a pattern of more bytes than
  the limit aborts the statement (\<open>LIKE or GLOB pattern too complex\<close>); otherwise the
  matcher runs on the two C strings.
\<close>

definition like_match :: "pystr \<Rightarrow> pystr \<Rightarrow> error + bool" where
  "like_match pat text =
     (if max_like_pattern_length < utf8_bytes pat then Inl OperationalError
      else Inr (pattern_compare (c_string pat) (c_string text)))"

text \<open>\<open>value LIKE pattern\<close> on a column: the length of the pattern is checked first,
  then the result is \<open>NULL\<close> when the value is.\<close>

definition sql_like :: "pystr option \<Rightarrow> pystr \<Rightarrow> error + bool option" where
  "sql_like v pat =
     (case v of
        None \<Rightarrow> (if max_like_pattern_length < utf8_bytes pat then Inl OperationalError
                  else Inr None)
      | Some text \<Rightarrow>
          (case like_match pat text of Inl e \<Rightarrow> Inl e | Inr b \<Rightarrow> Inr (Some b)))"

text \<open>
  The rows of a table on which \<open>column LIKE pattern\<close> is true. The rows are visited in
  order, and the first evaluation that fails ends the statement.
\<close>

fun like_rows :: "('r \<Rightarrow> pystr option) \<Rightarrow> pystr \<Rightarrow> 'r list \<Rightarrow> error + 'r list" where
  "like_rows column pat [] = Inr []"
| "like_rows column pat (r # rs) =
     (case sql_like (column r) pat of
        Inl e \<Rightarrow> Inl e
      | Inr v \<Rightarrow>
          (case like_rows column pat rs of
             Inl e \<Rightarrow> Inl e
           | Inr keep \<Rightarrow> Inr (if v = Some True then r # keep else keep)))"

text \<open>
  \<open>ORDER BY key DESC\<close>, with \<open>tie\<close> the rank that orders rows of equal key, and
  \<open>ORDER BY key\<close>. \<open>NULL\<close> is the least value, and text compares code point by code
  point.
\<close>

definition order_by_desc :: "('a \<Rightarrow> nat) \<Rightarrow> ('a \<Rightarrow> 'k::linorder) \<Rightarrow> 'a list \<Rightarrow> 'a list" where
  "order_by_desc tie key rows = rev (sort_key key (rev (sort_key tie rows)))"

definition order_by :: "('a \<Rightarrow> 'k::linorder) \<Rightarrow> 'a list \<Rightarrow> 'a list" where
  "order_by key rows = sort_key key rows"

text \<open>\<open>LIMIT n\<close> for a 64-bit \<open>n\<close>: SQLite reads a negative \<open>n\<close> as no limit.\<close>

definition sql_limit :: "64 word \<Rightarrow> 'a list \<Rightarrow> 'a list" where
  "sql_limit n rows = (if sint n < 0 then rows else take (nat (sint n)) rows)"

section \<open>Result enrichment and the topic timeline\<close>

text \<open>The compact topic entry of a result row: \<open>SELECT topic, source\<close>.\<close>

record compact_topic =
  c_topic :: "pystr option"
  c_source :: "pystr option"

text \<open>\<open>SessionSearch._get_topics\<close>.\<close>

definition get_topics :: "db \<Rightarrow> pystr \<Rightarrow> compact_topic list" where
  "get_topics d sid =
     map (\<lambda>t. \<lparr>c_topic = tp_topic t, c_source = tp_source t\<rparr>)
       (sql_limit 10 (order_by tp_captured_at
          (filter (\<lambda>t. tp_session_id t = sid) (session_topics d))))"

text \<open>An entry of the full timeline:
  \<open>SELECT topic, captured_at, exchange_number, source\<close>.\<close>

record timeline_entry =
  topic :: "pystr option"
  captured_at :: "pystr option"
  exchange_number :: "int option"
  source :: "pystr option"

text \<open>\<open>SessionSearch.topics\<close>.\<close>

definition topics :: "db \<Rightarrow> pystr \<Rightarrow> timeline_entry list" where
  "topics d sid =
     map (\<lambda>t. \<lparr>topic = tp_topic t, captured_at = tp_captured_at t,
               exchange_number = tp_exchange_number t, source = tp_source t\<rparr>)
       (order_by tp_captured_at (filter (\<lambda>t. tp_session_id t = sid) (session_topics d)))"

text \<open>
  A result row: the dictionary \<open>r\<close> built from the selected columns, with the key
  \<open>topics\<close> added. The column \<open>project\<close> is not selected.
\<close>

record result =
  r_session_id :: pystr
  r_project_name :: "pystr option"
  r_title :: "pystr option"
  r_title_display :: "pystr option"
  r_client :: "pystr option"
  r_tags :: "pystr option"
  r_exchange_count :: "int option"
  r_start_time :: "pystr option"
  r_duration_minutes :: "int option"
  r_has_compaction :: "int option"
  r_topics :: "compact_topic list"

text \<open>The body of the loop \<open>for row in rows\<close> shared by \<open>search\<close> and \<open>find\<close>.\<close>

definition enrich :: "db \<Rightarrow> session \<Rightarrow> result" where
  "enrich d s =
     \<lparr>r_session_id = s_session_id s, r_project_name = s_project_name s,
      r_title = s_title s, r_title_display = s_title_display s, r_client = s_client s,
      r_tags = s_tags s, r_exchange_count = s_exchange_count s,
      r_start_time = s_start_time s, r_duration_minutes = s_duration_minutes s,
      r_has_compaction = s_has_compaction s,
      r_topics = get_topics d (s_session_id s)\<rparr>"

section \<open>The predicate builder and \<open>find\<close>\<close>

text \<open>
  The keyword arguments of \<open>SessionSearch.find\<close> other than \<open>limit\<close>. An argument
  left out has its default: \<open>None\<close>, and \<open>False\<close> for \<open>week\<close>.
\<close>

record criteria =
  client :: "pystr option"
  tag :: "pystr option"
  tool :: "pystr option"
  agent :: "pystr option"
  date :: "pystr option"
  week :: bool
  days :: "int option"
  project :: "pystr option"
  exclude_project :: "pystr option"
  has_compaction :: "bool option"

definition no_criteria :: criteria where
  "no_criteria =
     \<lparr>client = None, tag = None, tool = None, agent = None, date = None, week = False,
      days = None, project = None, exclude_project = None, has_compaction = None\<rparr>"

text \<open>The default of \<open>limit\<close> in \<open>search\<close>, \<open>find\<close> and \<open>tools_usage\<close>.\<close>

definition default_limit :: int where
  "default_limit = 20"

text \<open>
  One entry of \<open>conditions\<close> together with the entries of \<open>params\<close> that fill its
  placeholders:
  \<^item> \<open>ClientLike p\<close>: \<open>s.client LIKE ?\<close>
  \<^item> \<open>TagsLike p\<close>: \<open>s.tags LIKE ?\<close>
  \<^item> \<open>ToolIn p\<close>: \<open>s.session_id IN (SELECT session_id FROM session_tools WHERE tool_name LIKE ?)\<close>
  \<^item> \<open>AgentIn p\<close>: \<open>s.session_id IN (SELECT session_id FROM session_agents WHERE agent_name LIKE ?)\<close>
  \<^item> \<open>ProjectLike p q\<close>: \<open>(s.project_name LIKE ? OR s.project LIKE ?)\<close>
  \<^item> \<open>StartLike p\<close>: \<open>s.start_time LIKE ?\<close>
  \<^item> \<open>StartGe t\<close>: \<open>s.start_time >= ?\<close>
  \<^item> \<open>NotProjectLike p q\<close>: \<open>NOT (s.project_name LIKE ? OR s.project LIKE ?)\<close>
  \<^item> \<open>CompactionEq n\<close>: \<open>s.has_compaction = ?\<close>
\<close>

datatype cond =
    ClientLike pystr
  | TagsLike pystr
  | ToolIn pystr
  | AgentIn pystr
  | ProjectLike pystr pystr
  | StartLike pystr
  | StartGe pystr
  | NotProjectLike pystr pystr
  | CompactionEq int

text \<open>The f-string \<open>f"%{v}%"\<close>.\<close>

definition contains_pattern :: "pystr \<Rightarrow> pystr" where
  "contains_pattern v = [percent] @ v @ [percent]"

text \<open>
  \<open>if v: conditions.append(...)\<close> for a string argument: \<open>None\<close> and the empty
  string are falsy.
\<close>

fun when_str :: "pystr option \<Rightarrow> (pystr \<Rightarrow> cond) \<Rightarrow> cond list" where
  "when_str None mk = []"
| "when_str (Some v) mk = (if v \<noteq> [] then [mk v] else [])"

text \<open>
  \<open>if n: ...\<close> for the cutoff of \<open>week\<close> and \<open>days\<close>. The parameter \<open>clock\<close> is the
  wall clock: \<open>clock n\<close> is \<open>(datetime.now() - timedelta(days=n)).isoformat()\<close>, or the
  \<open>OverflowError\<close> that the subtraction raises.
\<close>

definition cutoff :: "(int \<Rightarrow> error + pystr) \<Rightarrow> int \<Rightarrow> error + cond list" where
  "cutoff clock n = (case clock n of Inl e \<Rightarrow> Inl e | Inr t \<Rightarrow> Inr [StartGe t])"

text \<open>
  The first part of \<open>find\<close>: the list \<open>conditions\<close> (with \<open>params\<close>) in the order
  in which the source appends to it.
\<close>

definition find_conditions :: "(int \<Rightarrow> error + pystr) \<Rightarrow> criteria \<Rightarrow> error + cond list" where
  "find_conditions clock c =
     (let conditions =
            when_str (client c) (\<lambda>v. ClientLike (contains_pattern v))
          @ when_str (tag c) (\<lambda>v. TagsLike (contains_pattern v))
          @ when_str (tool c) (\<lambda>v. ToolIn (contains_pattern v))
          @ when_str (agent c) (\<lambda>v. AgentIn (contains_pattern v))
          @ when_str (project c) (\<lambda>v. ProjectLike (contains_pattern v) (contains_pattern v))
          @ when_str (date c) (\<lambda>v. StartLike (v @ [percent]))
      in case (if week c then cutoff clock 7 else Inr []) of
           Inl e \<Rightarrow> Inl e
         | Inr week_cond \<Rightarrow>
             (case (case days c of
                      None \<Rightarrow> Inr []
                    | Some n \<Rightarrow> if n \<noteq> 0 then cutoff clock n else Inr []) of
                Inl e \<Rightarrow> Inl e
              | Inr days_cond \<Rightarrow>
                  Inr (conditions @ week_cond @ days_cond
                       @ when_str (exclude_project c)
                           (\<lambda>v. NotProjectLike (contains_pattern v) (contains_pattern v))
                       @ (case has_compaction c of
                            None \<Rightarrow> []
                          | Some b \<Rightarrow> [CompactionEq (if b then 1 else 0)]))))"

text \<open>
  \<open>x IN (SELECT ...)\<close> for a key \<open>x\<close> that is not \<open>NULL\<close> and a subquery whose
  column is never \<open>NULL\<close>.
\<close>

definition sql_in :: "pystr \<Rightarrow> pystr list \<Rightarrow> bool option" where
  "sql_in x xs = Some (x \<in> set xs)"

text \<open>
  \<open>a LIKE ? OR b LIKE ?\<close> on two columns, as SQLite evaluates it: the left operand
  first, and the right one only when the left is not true.
\<close>

definition like_or :: "pystr option \<Rightarrow> pystr \<Rightarrow> pystr option \<Rightarrow> pystr \<Rightarrow> error + bool option" where
  "like_or a p b q =
     (case sql_like a p of
        Inl e \<Rightarrow> Inl e
      | Inr x \<Rightarrow>
          if x = Some True then Inr (Some True)
          else (case sql_like b q of Inl e \<Rightarrow> Inl e | Inr y \<Rightarrow> Inr (sql_or x y)))"

text \<open>The value of one condition on the row \<open>s\<close>, or the error that its evaluation
  raises.\<close>

fun eval_cond :: "db \<Rightarrow> session \<Rightarrow> cond \<Rightarrow> error + bool option" where
  "eval_cond d s (ClientLike p) = sql_like (s_client s) p"
| "eval_cond d s (TagsLike p) = sql_like (s_tags s) p"
| "eval_cond d s (ToolIn p) =
     (case like_rows tl_tool_name p (session_tools d) of
        Inl e \<Rightarrow> Inl e
      | Inr rows \<Rightarrow> Inr (sql_in (s_session_id s) (map tl_session_id rows)))"
| "eval_cond d s (AgentIn p) =
     (case like_rows ag_agent_name p (session_agents d) of
        Inl e \<Rightarrow> Inl e
      | Inr rows \<Rightarrow> Inr (sql_in (s_session_id s) (map ag_session_id rows)))"
| "eval_cond d s (ProjectLike p q) = like_or (s_project_name s) p (s_project s) q"
| "eval_cond d s (StartLike p) = sql_like (s_start_time s) p"
| "eval_cond d s (StartGe t) = Inr (map_option (\<lambda>v. t \<le> v) (s_start_time s))"
| "eval_cond d s (NotProjectLike p q) =
     (case like_or (s_project_name s) p (s_project s) q of
        Inl e \<Rightarrow> Inl e
      | Inr x \<Rightarrow> Inr (sql_not x))"
| "eval_cond d s (CompactionEq n) = Inr (map_option (\<lambda>v. v = n) (s_has_compaction s))"

text \<open>
  \<open>where = " AND ".join(conditions) if conditions else "1=1"\<close>, decided on the row
  \<open>s\<close>: whether the clause is true (neither false nor \<open>NULL\<close>). The conditions are
  evaluated from the left, and the first that is not true settles the row.
\<close>

fun eval_where :: "db \<Rightarrow> session \<Rightarrow> cond list \<Rightarrow> error + bool" where
  "eval_where d s [] = Inr True"
| "eval_where d s (c # cs) =
     (case eval_cond d s c of
        Inl e \<Rightarrow> Inl e
      | Inr v \<Rightarrow> if v = Some True then eval_where d s cs else Inr False)"

text \<open>The scan of \<open>sessions\<close> under the \<open>WHERE\<close> clause: the rows on which it is true,
  or the error of the first evaluation that fails.\<close>

fun scan_sessions :: "db \<Rightarrow> cond list \<Rightarrow> session list \<Rightarrow> error + session list" where
  "scan_sessions d conds [] = Inr []"
| "scan_sessions d conds (s # ss) =
     (case eval_where d s conds of
        Inl e \<Rightarrow> Inl e
      | Inr selected \<Rightarrow>
          (case scan_sessions d conds ss of
             Inl e \<Rightarrow> Inl e
           | Inr rows \<Rightarrow> Inr (if selected then s # rows else rows)))"

text \<open>
  The statement of \<open>find\<close> with its parameters bound: the selected rows,
  \<open>ORDER BY s.start_time DESC LIMIT ?\<close>. With the limit 0 SQLite returns at once and
  evaluates the clause on no row.
\<close>

definition select_sessions :: "db \<Rightarrow> cond list \<Rightarrow> 64 word \<Rightarrow> error + session list" where
  "select_sessions d conds limit =
     (if limit = 0 then Inr []
      else
        (case scan_sessions d conds (sessions d) of
           Inl e \<Rightarrow> Inl e
         | Inr rows \<Rightarrow> Inr (sql_limit limit (order_by_desc (tie_order d) s_start_time rows))))"

text \<open>The text parameters of a condition, in the order of its placeholders. The
  parameter of \<open>CompactionEq\<close> is the integer 0 or 1.\<close>

fun cond_params :: "cond \<Rightarrow> pystr list" where
  "cond_params (ClientLike p) = [p]"
| "cond_params (TagsLike p) = [p]"
| "cond_params (ToolIn p) = [p]"
| "cond_params (AgentIn p) = [p]"
| "cond_params (ProjectLike p q) = [p, q]"
| "cond_params (StartLike p) = [p]"
| "cond_params (StartGe t) = [t]"
| "cond_params (NotProjectLike p q) = [p, q]"
| "cond_params (CompactionEq n) = []"

text \<open>
  Binding \<open>params\<close>: the parameters of the conditions in their order, then
  \<open>limit\<close>, which \<open>params.append(limit)\<close> puts last. The first parameter that cannot
  be bound raises.
\<close>

fun bind_texts :: "pystr list \<Rightarrow> error + unit" where
  "bind_texts [] = Inr ()"
| "bind_texts (p # ps) = (case bind_text p of Inl e \<Rightarrow> Inl e | Inr _ \<Rightarrow> bind_texts ps)"

definition bind_params :: "cond list \<Rightarrow> int \<Rightarrow> error + 64 word" where
  "bind_params conds limit =
     (case bind_texts (concat (map cond_params conds)) of
        Inl e \<Rightarrow> Inl e
      | Inr _ \<Rightarrow> bind_int limit)"

text \<open>\<open>SessionSearch.find\<close>.\<close>

definition find_sessions ::
  "(int \<Rightarrow> error + pystr) \<Rightarrow> db \<Rightarrow> criteria \<Rightarrow> int \<Rightarrow> error + result list" where
  "find_sessions clock d c limit =
     (case find_conditions clock c of
        Inl e \<Rightarrow> Inl e
      | Inr conds \<Rightarrow>
          (case bind_params conds limit of
             Inl e \<Rightarrow> Inl e
           | Inr n \<Rightarrow>
               (case select_sessions d conds n of
                  Inl e \<Rightarrow> Inl e
                | Inr rows \<Rightarrow> Inr (map (enrich d) rows))))"


section \<open>Full-text search\<close>

text \<open>
  The statement of \<open>search\<close> runs in SQLite's FTS5 engine. The engine is a parameter:
  \<open>engine expr limit\<close> is the outcome of executing the statement with the two
  parameters bound, either an error raised by the engine or the joined rows in rank
  order, each with its snippet.
\<close>

type_synonym fts_engine = "pystr \<Rightarrow> int \<Rightarrow> error + (session \<times> pystr option) list"

text \<open>\<open>SessionSearch.search\<close>. A result is the enriched row with its \<open>snippet\<close>.\<close>

definition search :: "fts_engine \<Rightarrow> db \<Rightarrow> pystr \<Rightarrow> int \<Rightarrow> error + (result \<times> pystr option) list" where
  "search engine d query limit =
     (case engine (escape_fts_query query) limit of
        Inl e \<Rightarrow> Inl e
      | Inr rows \<Rightarrow> Inr (map (\<lambda>(s, snippet). (enrich d s, snippet)) rows))"

section \<open>The command line: \<open>topics\<close>, \<open>stats\<close> and \<open>search --context\<close>\<close>

text \<open>
  The branches of \<open>main\<close> are modelled by what they report, not by the text they
  print. Standard output is taken to accept every text that is printed, as it does with
  a UTF-8 encoding: \<open>print\<close> raises nothing of its own.
\<close>

text \<open>\<open>cursor.fetchone()\<close>: the first row, or \<open>None\<close>.\<close>

fun fetchone :: "'a list \<Rightarrow> 'a option" where
  "fetchone [] = None"
| "fetchone (row # rows) = Some row"

text \<open>
  The rows of \<open>SELECT session_id FROM sessions WHERE session_id LIKE ?\<close> with the
  parameter \<open>f"{sid}%"\<close>, in the order of the table, or the error that binding the
  parameter or evaluating the clause raises.
\<close>

definition prefix_matches :: "db \<Rightarrow> pystr \<Rightarrow> error + pystr list" where
  "prefix_matches d sid =
     (case bind_text (sid @ [percent]) of
        Inl e \<Rightarrow> Inl e
      | Inr pat \<Rightarrow>
          (case like_rows (\<lambda>s. Some (s_session_id s)) pat (sessions d) of
             Inl e \<Rightarrow> Inl e
           | Inr rows \<Rightarrow> Inr (map s_session_id rows)))"

text \<open>\<open>if len(sid) < 36: ...\<close>: the identifier the command goes on with, \<open>None\<close> when
  the lookup finds no row.\<close>

definition resolve_session_id :: "db \<Rightarrow> pystr \<Rightarrow> error + pystr option" where
  "resolve_session_id d sid =
     (if length sid < 36 then
        (case prefix_matches d sid of Inl e \<Rightarrow> Inl e | Inr rows \<Rightarrow> Inr (fetchone rows))
      else Inr (Some sid))"

text \<open>
  The loop \<open>for t in topics\<close> that prints the timeline: the entries printed, and the
  exception that ended the loop, if any. \<open>f"[{src:20s}]"\<close> raises \<open>TypeError\<close> when
  the source is \<open>None\<close>; a \<open>None\<close> in another column is printed or skipped.
\<close>

fun print_timeline :: "timeline_entry list \<Rightarrow> timeline_entry list \<times> error option" where
  "print_timeline [] = ([], None)"
| "print_timeline (t # ts) =
     (case source t of
        None \<Rightarrow> ([], Some TypeError)
      | Some src \<Rightarrow> (case print_timeline ts of (out, e) \<Rightarrow> (t # out, e)))"

text \<open>
  The branch \<open>args.command == 'topics'\<close> of \<open>main\<close>, up to what it reports:
  \<^item> \<open>Raised e\<close>: a statement raises \<open>e\<close> before anything is printed;
  \<^item> \<open>NoSessionFound sid\<close>: it prints \<open>No session found matching: ...\<close> and returns;
  \<^item> \<open>NoTopics sid\<close>: it prints \<open>No topics recorded for session ...\<close> and returns;
  \<^item> \<open>Timeline sid entries e\<close>: it prints the heading of the session \<open>sid\<close> and the
    entries, and ends with the exception \<open>e\<close>, if any.
\<close>

datatype topics_outcome =
    Raised error
  | NoSessionFound pystr
  | NoTopics pystr
  | Timeline pystr "timeline_entry list" "error option"

definition topics_command :: "db \<Rightarrow> pystr \<Rightarrow> topics_outcome" where
  "topics_command d arg =
     (case resolve_session_id d arg of
        Inl e \<Rightarrow> Raised e
      | Inr None \<Rightarrow> NoSessionFound arg
      | Inr (Some sid) \<Rightarrow>
          (case bind_text sid of
             Inl e \<Rightarrow> Raised e
           | Inr _ \<Rightarrow>
               (case topics d sid of
                  [] \<Rightarrow> NoTopics sid
                | t # ts \<Rightarrow> (case print_timeline (t # ts) of (out, e) \<Rightarrow> Timeline sid out e))))"

text \<open>
  A chain of three nested \<open>try: from ... import ... except ImportError:\<close>. Each argument
  is what one import yields: \<open>None\<close> when it raises \<open>ImportError\<close>.
\<close>

definition try_imports :: "'m option \<Rightarrow> 'm option \<Rightarrow> 'm option \<Rightarrow> 'm option" where
  "try_imports first second third =
     (case first of
        Some m \<Rightarrow> Some m
      | None \<Rightarrow> (case second of Some m \<Rightarrow> Some m | None \<Rightarrow> third))"

text \<open>
  What \<open>SessionSearch.stats\<close> returns: the dictionary \<open>{"error": msg}\<close>, or the
  snapshot of the indexer's \<open>get_stats\<close>.
\<close>

datatype 'st stats_dict = ErrorDict pystr | Snapshot 'st

text \<open>
  \<open>SessionSearch.stats\<close>. The three parameters are the class \<open>SessionIndexer\<close> as each
  of the three imports finds it, given by its \<open>get_stats\<close>.
\<close>

definition stats ::
  "(db \<Rightarrow> error + 'st) option \<Rightarrow> (db \<Rightarrow> error + 'st) option \<Rightarrow> (db \<Rightarrow> error + 'st) option
     \<Rightarrow> db \<Rightarrow> error + 'st stats_dict" where
  "stats first second third d =
     (case try_imports first second third of
        None \<Rightarrow> Inr (ErrorDict (str ''SessionIndexer not available''))
      | Some get_stats \<Rightarrow>
          (case get_stats d of Inl e \<Rightarrow> Inl e | Inr snapshot \<Rightarrow> Inr (Snapshot snapshot)))"

text \<open>
  What the branch \<open>args.command == 'search'\<close> of \<open>main\<close> prints, one item per
  \<open>print\<close>:
  \<^item> \<open>NoResults query\<close>: \<open>No results for: ...\<close>;
  \<^item> \<open>Header n query\<close>: the line counting the results;
  \<^item> \<open>Formatted r\<close>: \<open>format_result(r)\<close>;
  \<^item> \<open>Line s\<close>: the literal line \<open>s\<close>;
  \<^item> \<open>Exchanges ctx\<close>: the lines of the loop over \<open>ctx['exchanges']\<close>.
\<close>

datatype 'ctx printed =
    NoResults pystr
  | Header nat pystr
  | Formatted "result \<times> pystr option"
  | Line pystr
  | Exchanges 'ctx

text \<open>The notice printed when no analyzer module is found. Its dash is the em dash, the
  code point 8212.\<close>

definition context_notice :: pystr where
  "context_notice =
     str ''    (context not available '' @ [8212] @ str '' analyzer module not found)''"

text \<open>
  \<open>format_result(r)\<close>, as far as it can fail. The text it builds is not modelled: the
  row stands for its text. Building it raises \<open>TypeError\<close> when the topic
  text of one of the first five topics of the row is \<open>None\<close>
  (\<open>' \<rightarrow> '.join(topic_strs)\<close> over \<open>r['topics'][:5]\<close>); every other \<open>None\<close> is
  skipped by a test.
\<close>

definition format_result ::
  "result \<times> pystr option \<Rightarrow> error + result \<times> pystr option" where
  "format_result r =
     (if list_ex (\<lambda>t. c_topic t = None) (take 5 (r_topics (fst r))) then Inl TypeError
      else Inr r)"

text \<open>
  The loop \<open>for r in results\<close> of that branch. \<open>get_context\<close> is the analyzer's
  function as the three imports find it, given by the outcome of calling it and
  printing its exchanges; \<open>context\<close> is the flag \<open>--context\<close>. The result is what
  was printed and the exception that ended the loop, if any.
\<close>

fun print_results ::
  "(pystr \<Rightarrow> pystr \<Rightarrow> error + 'ctx) option \<Rightarrow> bool \<Rightarrow> pystr \<Rightarrow> (result \<times> pystr option) list
     \<Rightarrow> 'ctx printed list \<times> error option" where
  "print_results get_context context query [] = ([], None)"
| "print_results get_context context query (r # rs) =
     (case format_result r of
        Inl e \<Rightarrow> ([], Some e)
      | Inr text \<Rightarrow>
          if context then
            (case get_context of
               None \<Rightarrow>
                 (case print_results get_context context query rs of
                    (out, e) \<Rightarrow> ([Formatted text, Line context_notice, Line []] @ out, e))
             | Some f \<Rightarrow>
                 (case f (r_session_id (fst r)) query of
                    Inl e \<Rightarrow> ([Formatted text], Some e)
                  | Inr ctx \<Rightarrow>
                      (case print_results get_context context query rs of
                         (out, e) \<Rightarrow> ([Formatted text, Exchanges ctx, Line []] @ out, e))))
          else
            (case print_results get_context context query rs of
               (out, e) \<Rightarrow> ([Formatted text, Line []] @ out, e)))"

text \<open>The branch \<open>args.command == 'search'\<close> of \<open>main\<close>. The three parameters after
  the store are \<open>get_context\<close> as each of the three imports finds it.\<close>

definition search_command ::
  "fts_engine \<Rightarrow> db \<Rightarrow> (pystr \<Rightarrow> pystr \<Rightarrow> error + 'ctx) option
     \<Rightarrow> (pystr \<Rightarrow> pystr \<Rightarrow> error + 'ctx) option \<Rightarrow> (pystr \<Rightarrow> pystr \<Rightarrow> error + 'ctx) option
     \<Rightarrow> pystr \<Rightarrow> int \<Rightarrow> bool \<Rightarrow> 'ctx printed list \<times> error option" where
  "search_command engine d first second third query limit context =
     (case search engine d query limit of
        Inl e \<Rightarrow> ([], Some e)
      | Inr results \<Rightarrow>
          if results = [] then ([NoResults query], None)
          else
            (case print_results (try_imports first second third) context query results of
               (out, e) \<Rightarrow> (Header (length results) query # out, e)))"

section \<open>Properties of the sanitizer\<close>

subsection \<open>The tokens as a function of the remaining input\<close>

text \<open>
  \<open>toks cs\<close> is the list of tokens the loop appends when \<open>cs\<close> is the part of
  \<open>chars\<close> from index \<open>i\<close> on; \<open>tokch\<close> says that a character continues an unquoted
  token.
\<close>

definition tokch :: "nat \<Rightarrow> bool" where "tokch x \<longleftrightarrow> \<not> isspace x \<and> x \<noteq> dquote"

function toks :: "pystr \<Rightarrow> pystr list" where
  "toks [] = []"
| "toks (c # cs) =
     (if isspace c then toks cs
      else if c = dquote then
        (if dquote \<in> set cs
         then (dquote # takeWhile (\<lambda>x. x \<noteq> dquote) cs @ [dquote]) # toks (tl (dropWhile (\<lambda>x. x \<noteq> dquote) cs))
         else [dquote # cs @ [dquote]])
      else (dquote # c # takeWhile tokch cs @ [dquote]) # toks (dropWhile tokch cs))"
  by pat_completeness auto
termination
proof (relation "measure length", goal_cases)
  case 1
  show ?case by simp
next
  case (2 c cs)
  show ?case by simp
next
  case (3 c cs)
  have "length (tl (dropWhile (\<lambda>x. x \<noteq> dquote) cs)) \<le> length (dropWhile (\<lambda>x. x \<noteq> dquote) cs)"
    by simp
  also have "\<dots> \<le> length cs" by (rule length_dropWhile_le)
  finally show ?case by simp
next
  case (4 c cs)
  have "length (dropWhile tokch cs) \<le> length cs" by (rule length_dropWhile_le)
  then show ?case by simp
qed

declare toks.simps(2) [simp del]

lemma scan_token_eq: "scan_token chars i = i + length (takeWhile tokch (drop i chars))"
proof (induction chars i rule: scan_token.induct)
  case (1 chars i)
  show ?case
  proof (cases "i < length chars \<and> \<not> isspace (chars ! i) \<and> chars ! i \<noteq> dquote")
    case True
    then have d: "drop i chars = chars ! i # drop (i + 1) chars"
      by (simp add: Cons_nth_drop_Suc)
    from True "1.IH" have "scan_token chars (i + 1) = i + 1 + length (takeWhile tokch (drop (i + 1) chars))"
      by simp
    with True d show ?thesis by (subst scan_token.simps) (simp add: tokch_def)
  next
    case False
    show ?thesis
    proof (cases "i < length chars")
      case True
      then have d: "drop i chars = chars ! i # drop (i + 1) chars"
        by (simp add: Cons_nth_drop_Suc)
      from False True have "\<not> tokch (chars ! i)" by (auto simp: tokch_def)
      with d False show ?thesis by (subst scan_token.simps) auto
    next
      case F: False
      then show ?thesis by (subst scan_token.simps) auto
    qed
  qed
qed

lemma drop_after_quote:
  "c \<in> set r \<Longrightarrow> drop (Suc (length (takeWhile (\<lambda>x. x \<noteq> c) r))) r = tl (dropWhile (\<lambda>x. x \<noteq> c) r)"
  by (induction r) auto

lemma take_upto_quote:
  "c \<in> set r \<Longrightarrow> take (Suc (length (takeWhile (\<lambda>x. x \<noteq> c) r))) r = takeWhile (\<lambda>x. x \<noteq> c) r @ [c]"
  by (induction r) auto

lemma take_length_takeWhile: "take (length (takeWhile P r)) r = takeWhile P r"
  by (induction r) auto

lemma drop_length_takeWhile: "drop (length (takeWhile P r)) r = dropWhile P r"
  by (induction r) auto

lemma toks_drop:
  assumes "i < length chars"
  shows "toks (drop i chars) = toks (chars ! i # drop (Suc i) chars)"
  using assms by (simp add: Cons_nth_drop_Suc)

lemma tokenize_toks: "tokenize chars i tokens = tokens @ toks (drop i chars)"
proof (induction chars i tokens rule: tokenize.induct)
  case (1 chars i tokens)
  show ?case
  proof (cases "i < length chars")
    case False
    then show ?thesis by (subst tokenize.simps) simp
  next
    case lt: True
    let ?r = "drop (Suc i) chars"
    have d: "drop i chars = chars ! i # ?r"
      using lt by (simp add: Cons_nth_drop_Suc)
    show ?thesis
    proof (cases "isspace (chars ! i)")
      case True
      have "tokenize chars i tokens = tokenize chars (i + 1) tokens"
        using lt True by (subst tokenize.simps) simp
      also have "\<dots> = tokens @ toks ?r"
        using "1.IH"(1) [OF lt True] by simp
      also have "toks ?r = toks (drop i chars)"
        unfolding d using True by (simp add: toks.simps(2))
      finally show ?thesis .
    next
      case ns: False
      show ?thesis
      proof (cases "chars ! i = dquote")
        case q: True
        show ?thesis
        proof (cases "find_char dquote chars (i + 1)")
          case None
          then have nm: "dquote \<notin> set ?r"
            by (auto simp: find_char_def split: if_splits)
          have "tokenize chars i tokens = tokens @ [[dquote] @ ?r @ [dquote]]"
            using lt ns q None by (subst tokenize.simps) simp
          also have "[[dquote] @ ?r @ [dquote]] = toks (drop i chars)"
            unfolding d using ns q nm by (simp add: toks.simps(2))
          finally show ?thesis .
        next
          case (Some e)
          let ?a = "takeWhile (\<lambda>x. x \<noteq> dquote) ?r"
          from Some have mem: "dquote \<in> set ?r" and e: "e = Suc i + length ?a"
            by (auto simp: find_char_def split: if_splits)
          have dr: "drop (e + 1) chars = tl (dropWhile (\<lambda>x. x \<noteq> dquote) ?r)"
          proof -
            have "drop (e + 1) chars = drop (Suc (length ?a)) ?r"
              unfolding e by (simp add: add.commute)
            then show ?thesis using drop_after_quote [OF mem] by simp
          qed
          have sl: "slice chars i (e + 1) = dquote # ?a @ [dquote]"
          proof -
            have "slice chars i (e + 1) = take (Suc (Suc (length ?a))) (drop i chars)"
              unfolding e slice_def by simp
            also have "\<dots> = chars ! i # take (Suc (length ?a)) ?r"
              unfolding d by simp
            also have "\<dots> = dquote # ?a @ [dquote]"
              using take_upto_quote [OF mem] q by simp
            finally show ?thesis .
          qed
          have "tokenize chars i tokens = tokenize chars (e + 1) (tokens @ [slice chars i (e + 1)])"
            using lt ns q Some by (subst tokenize.simps) simp
          also have "\<dots> = (tokens @ [slice chars i (e + 1)]) @ toks (drop (e + 1) chars)"
            by (rule "1.IH"(2) [OF lt ns q Some])
          also have "\<dots> = tokens @ toks (chars ! i # ?r)"
            unfolding sl dr using ns q mem by (simp add: toks.simps(2))
          finally show ?thesis unfolding d .
        qed
      next
        case nq: False
        let ?a = "takeWhile tokch ?r"
        have tc: "tokch (chars ! i)" using ns nq by (simp add: tokch_def)
        have st: "scan_token chars i = Suc i + length ?a"
          unfolding scan_token_eq d using tc by simp
        have sl: "slice chars i (scan_token chars i) = chars ! i # ?a"
        proof -
          have "slice chars i (scan_token chars i) = take (Suc (length ?a)) (drop i chars)"
            unfolding st slice_def by simp
          also have "\<dots> = chars ! i # take (length ?a) ?r"
            unfolding d by simp
          finally show ?thesis by (simp only: take_length_takeWhile)
        qed
        have dr: "drop (scan_token chars i) chars = dropWhile tokch ?r"
        proof -
          have "drop (scan_token chars i) chars = drop (length ?a) ?r"
            unfolding st by (simp add: add.commute)
          then show ?thesis by (simp only: drop_length_takeWhile)
        qed
        have "tokenize chars i tokens =
              tokenize chars (scan_token chars i)
                (tokens @ [[dquote] @ slice chars i (scan_token chars i) @ [dquote]])"
          using lt ns nq by (subst tokenize.simps) simp
        also have "\<dots> = (tokens @ [[dquote] @ slice chars i (scan_token chars i) @ [dquote]])
                           @ toks (drop (scan_token chars i) chars)"
          by (rule "1.IH"(3) [OF lt ns nq])
        also have "\<dots> = tokens @ toks (chars ! i # ?r)"
          unfolding sl dr using ns nq by (simp add: toks.simps(2))
        finally show ?thesis unfolding d .
      qed
    qed
  qed
qed

subsection \<open>Quoted tokens are read back unchanged\<close>

lemma escape_toks: "escape_fts_query q = join [space] (toks (strip q))"
proof (cases "q = [] \<or> strip q = []")
  case True
  then have "strip q = []" by (auto simp: strip_def)
  then show ?thesis by (simp add: escape_fts_query_def)
next
  case False
  then show ?thesis by (simp add: escape_fts_query_def tokenize_toks)
qed

lemma not_isspace_dquote [simp]: "\<not> isspace dquote"
  by (simp add: isspace_def dquote_def)

lemma isspace_space [simp]: "isspace space"
  by (simp add: isspace_def space_def)

lemma not_tokch_dquote [simp]: "\<not> tokch dquote"
  by (simp add: tokch_def)

definition qtok :: "pystr \<Rightarrow> bool" where
  "qtok t \<longleftrightarrow> (\<exists>body. t = dquote # body @ [dquote] \<and> dquote \<notin> set body)"

lemma qtok_toks: "t \<in> set (toks cs) \<Longrightarrow> qtok t"
proof (induction cs rule: toks.induct)
  case 1
  then show ?case by simp
next
  case (2 c cs)
  show ?case
  proof (cases "isspace c")
    case True
    with 2 show ?thesis by (simp add: toks.simps(2))
  next
    case ns: False
    show ?thesis
    proof (cases "c = dquote")
      case q: True
      show ?thesis
      proof (cases "dquote \<in> set cs")
        case True
        have nb: "dquote \<notin> set (takeWhile (\<lambda>x. x \<noteq> dquote) cs)"
          by (auto dest: set_takeWhileD)
        from "2.prems" ns q True
        consider "t = dquote # takeWhile (\<lambda>x. x \<noteq> dquote) cs @ [dquote]"
          | "t \<in> set (toks (tl (dropWhile (\<lambda>x. x \<noteq> dquote) cs)))"
          by (auto simp: toks.simps(2))
        then show ?thesis
        proof cases
          case 1
          with nb show ?thesis unfolding qtok_def by blast
        next
          case 2
          with "2.IH"(2) [OF ns q True] show ?thesis .
        qed
      next
        case False
        with "2.prems" ns q have "t = dquote # cs @ [dquote]"
          by (simp add: toks.simps(2))
        with False show ?thesis unfolding qtok_def by blast
      qed
    next
      case nq: False
      have nb: "dquote \<notin> set (c # takeWhile tokch cs)"
        using nq by (auto dest: set_takeWhileD simp: tokch_def)
      from "2.prems" ns nq
      consider "t = dquote # (c # takeWhile tokch cs) @ [dquote]"
        | "t \<in> set (toks (dropWhile tokch cs))"
        by (auto simp: toks.simps(2))
      then show ?thesis
      proof cases
        case 1
        with nb show ?thesis unfolding qtok_def by blast
      next
        case 2
        with "2.IH"(3) [OF ns nq] show ?thesis .
      qed
    qed
  qed
qed

lemma takeWhile_neq_append: "c \<notin> set body \<Longrightarrow> takeWhile (\<lambda>x. x \<noteq> c) (body @ c # rest) = body"
  by (induction body) auto

lemma dropWhile_neq_append: "c \<notin> set body \<Longrightarrow> dropWhile (\<lambda>x. x \<noteq> c) (body @ c # rest) = c # rest"
  by (induction body) auto

lemma toks_quoted:
  assumes "dquote \<notin> set body"
  shows "toks (dquote # body @ dquote # rest) = (dquote # body @ [dquote]) # toks rest"
  using assms by (simp add: toks.simps(2) takeWhile_neq_append dropWhile_neq_append)

lemma toks_space: "toks (space # rest) = toks rest"
  by (simp add: toks.simps(2))

lemma toks_join: "(\<And>t. t \<in> set ts \<Longrightarrow> qtok t) \<Longrightarrow> toks (join [space] ts) = ts"
proof (induction ts rule: induct_list012)
  case 1
  then show ?case by simp
next
  case (2 t)
  then have "qtok t" by simp
  then obtain body where t: "t = dquote # body @ [dquote]" and nb: "dquote \<notin> set body"
    unfolding qtok_def by blast
  have "toks (dquote # body @ dquote # []) = (dquote # body @ [dquote]) # toks []"
    by (rule toks_quoted [OF nb])
  then show ?case using t by simp
next
  case (3 t u us)
  then have "qtok t" by simp
  then obtain body where t: "t = dquote # body @ [dquote]" and nb: "dquote \<notin> set body"
    unfolding qtok_def by blast
  have ih: "toks (join [space] (u # us)) = u # us"
    using 3 by simp
  have "join [space] (t # u # us) = dquote # body @ dquote # (space # join [space] (u # us))"
    using t by simp
  then have "toks (join [space] (t # u # us)) = (dquote # body @ [dquote]) # toks (space # join [space] (u # us))"
    using toks_quoted [OF nb] by simp
  then show ?case using ih t by (simp add: toks_space)
qed

lemma strip_id: "s = [] \<or> (\<not> isspace (hd s) \<and> \<not> isspace (last s)) \<Longrightarrow> strip s = s"
proof (cases s)
  case Nil
  then show ?thesis by (simp add: strip_def)
next
  case (Cons a as)
  assume "s = [] \<or> (\<not> isspace (hd s) \<and> \<not> isspace (last s))"
  with Cons have h: "\<not> isspace (hd s)" and l: "\<not> isspace (last s)" and ne: "s \<noteq> []" by auto
  from h ne have "dropWhile isspace s = s" by (cases s) auto
  moreover from l ne have "dropWhile isspace (rev s) = rev s"
    by (cases "rev s") (auto simp: last_rev [symmetric] hd_rev)
  ultimately show ?thesis by (simp add: strip_def)
qed

lemma join_qtok_ends:
  "(\<And>t. t \<in> set ts \<Longrightarrow> qtok t) \<Longrightarrow> ts \<noteq> [] \<Longrightarrow>
     join [space] ts \<noteq> [] \<and> hd (join [space] ts) = dquote \<and> last (join [space] ts) = dquote"
proof (induction ts rule: induct_list012)
  case 1
  then show ?case by simp
next
  case (2 t)
  then have "qtok t" by simp
  then show ?case unfolding qtok_def by auto
next
  case (3 t u us)
  then have "qtok t" by simp
  then obtain body where t: "t = dquote # body @ [dquote]" unfolding qtok_def by blast
  have "join [space] (u # us) \<noteq> [] \<and> last (join [space] (u # us)) = dquote"
    using 3 by simp
  then show ?case using t by simp
qed

lemma strip_join: "(\<And>t. t \<in> set ts \<Longrightarrow> qtok t) \<Longrightarrow> strip (join [space] ts) = join [space] ts"
proof (cases "ts = []")
  case True
  then show ?thesis by (simp add: strip_def)
next
  case False
  assume "\<And>t. t \<in> set ts \<Longrightarrow> qtok t"
  from join_qtok_ends [OF this False] show ?thesis
    by (intro strip_id) simp
qed

lemma escape_idem: "escape_fts_query (escape_fts_query q) = escape_fts_query q"
proof -
  let ?ts = "toks (strip q)"
  have q: "\<And>t. t \<in> set ?ts \<Longrightarrow> qtok t" by (rule qtok_toks)
  have "escape_fts_query (join [space] ?ts) = join [space] (toks (strip (join [space] ?ts)))"
    by (rule escape_toks)
  also have "\<dots> = join [space] ?ts"
    using strip_join [OF q] toks_join [OF q] by simp
  finally show ?thesis by (simp add: escape_toks)
qed

subsection \<open>An unterminated quote\<close>

text \<open>
  The sanitizer pairs the double quotes of the trimmed input from left to right, so a
  quote is left unterminated exactly when their number is odd, and it is then the last
  one. \<open>before_last_quote\<close> and \<open>after_last_quote\<close> are the parts of a string before
  and after its last double quote.
\<close>

definition after_last_quote :: "pystr \<Rightarrow> pystr" where
  "after_last_quote s = rev (takeWhile (\<lambda>x. x \<noteq> dquote) (rev s))"

definition before_last_quote :: "pystr \<Rightarrow> pystr" where
  "before_last_quote s = rev (tl (dropWhile (\<lambda>x. x \<noteq> dquote) (rev s)))"

lemma count_list_append: "count_list (xs @ ys) c = count_list xs c + count_list ys c"
  by (induction xs) auto

lemma count_list_0: "c \<notin> set xs \<Longrightarrow> count_list xs c = 0"
  by (induction xs) auto

lemma split_first: "c \<in> set xs \<Longrightarrow> xs = takeWhile (\<lambda>x. x \<noteq> c) xs @ c # tl (dropWhile (\<lambda>x. x \<noteq> c) xs)"
  by (induction xs) auto

lemma last_quote_split:
  assumes "dquote \<in> set s"
  shows "s = before_last_quote s @ dquote # after_last_quote s"
proof -
  from assms have "dquote \<in> set (rev s)" by simp
  from split_first [OF this]
  have "rev (rev s) = rev (takeWhile (\<lambda>x. x \<noteq> dquote) (rev s) @ dquote # tl (dropWhile (\<lambda>x. x \<noteq> dquote) (rev s)))"
    by simp
  then show ?thesis by (simp add: before_last_quote_def after_last_quote_def)
qed

lemma after_last_quote_free: "dquote \<notin> set (after_last_quote s)"
  by (auto simp: after_last_quote_def dest: set_takeWhileD)

lemma count_before_last_quote:
  assumes "dquote \<in> set s"
  shows "count_list s dquote = Suc (count_list (before_last_quote s) dquote)"
proof -
  have "count_list s dquote = count_list (before_last_quote s @ dquote # after_last_quote s) dquote"
    using last_quote_split [OF assms] by simp
  then show ?thesis
    by (simp add: count_list_append count_list_0 [OF after_last_quote_free])
qed

lemma takeWhile_stop: "\<not> P y \<Longrightarrow> takeWhile P (xs @ y # ys) = takeWhile P xs"
  by (induction xs) auto

lemma dropWhile_stop: "\<not> P y \<Longrightarrow> dropWhile P (xs @ y # ys) = dropWhile P xs @ y # ys"
  by (induction xs) auto

lemma count_dropWhile_tokch: "count_list (dropWhile tokch cs) dquote = count_list cs dquote"
  by (induction cs) (auto simp: tokch_def)

lemma count_tl_dropWhile:
  "dquote \<in> set cs \<Longrightarrow> count_list cs dquote = Suc (count_list (tl (dropWhile (\<lambda>x. x \<noteq> dquote) cs)) dquote)"
  by (induction cs) auto

lemma toks_unterminated:
  "even (count_list pre dquote) \<Longrightarrow> dquote \<notin> set rest \<Longrightarrow>
   toks (pre @ dquote # rest) = toks pre @ [dquote # rest @ [dquote]]"
proof (induction pre rule: toks.induct)
  case 1
  then show ?case by (simp add: toks.simps(2))
next
  case (2 c cs)
  show ?case
  proof (cases "isspace c")
    case True
    then have "c \<noteq> dquote" by auto
    with 2 True show ?thesis by (simp add: toks.simps(2))
  next
    case ns: False
    show ?thesis
    proof (cases "c = dquote")
      case q: True
      from "2.prems"(1) q have odd: "odd (count_list cs dquote)" by simp
      then have mem: "dquote \<in> set cs"
        using count_list_0 [of dquote cs] by fastforce
      have ev: "even (count_list (tl (dropWhile (\<lambda>x. x \<noteq> dquote) cs)) dquote)"
        using count_tl_dropWhile [OF mem] odd by simp
      have tw: "takeWhile (\<lambda>x. x \<noteq> dquote) (cs @ dquote # rest) = takeWhile (\<lambda>x. x \<noteq> dquote) cs"
        using mem by simp
      have ne: "dropWhile (\<lambda>x. x \<noteq> dquote) cs \<noteq> []"
        using mem by auto
      have dw: "tl (dropWhile (\<lambda>x. x \<noteq> dquote) (cs @ dquote # rest))
                = tl (dropWhile (\<lambda>x. x \<noteq> dquote) cs) @ dquote # rest"
        using mem ne by simp
      have "toks ((dquote # cs) @ dquote # rest)
            = (dquote # takeWhile (\<lambda>x. x \<noteq> dquote) cs @ [dquote])
              # toks (tl (dropWhile (\<lambda>x. x \<noteq> dquote) cs) @ dquote # rest)"
        using tw dw by (simp add: toks.simps(2))
      also have "toks (tl (dropWhile (\<lambda>x. x \<noteq> dquote) cs) @ dquote # rest)
                 = toks (tl (dropWhile (\<lambda>x. x \<noteq> dquote) cs)) @ [dquote # rest @ [dquote]]"
        by (rule "2.IH"(2) [OF ns q mem ev "2.prems"(2)])
      finally show ?thesis using q mem by (simp add: toks.simps(2))
    next
      case nq: False
      have ev: "even (count_list (dropWhile tokch cs) dquote)"
        using "2.prems"(1) nq by (simp add: count_dropWhile_tokch)
      have "toks ((c # cs) @ dquote # rest)
            = (dquote # c # takeWhile tokch cs @ [dquote]) # toks (dropWhile tokch cs @ dquote # rest)"
        using ns nq by (simp add: toks.simps(2) takeWhile_stop dropWhile_stop)
      also have "toks (dropWhile tokch cs @ dquote # rest)
                 = toks (dropWhile tokch cs) @ [dquote # rest @ [dquote]]"
        by (rule "2.IH"(3) [OF ns nq ev "2.prems"(2)])
      finally show ?thesis using ns nq by (simp add: toks.simps(2))
    qed
  qed
qed

lemma count_dropWhile_isspace: "count_list (dropWhile isspace s) dquote = count_list s dquote"
  by (induction s) auto

lemma count_list_rev: "count_list (rev s) c = count_list s c"
  by (induction s) (auto simp: count_list_append)

lemma count_strip: "count_list (strip s) dquote = count_list s dquote"
  by (simp add: strip_def count_list_rev count_dropWhile_isspace)

lemma escape_unterminated:
  assumes "odd (count_list q dquote)"
  shows "escape_fts_query q =
         join [space] (tokenize (before_last_quote (strip q)) 0 []
                       @ [[dquote] @ after_last_quote (strip q) @ [dquote]])"
proof -
  let ?s = "strip q"
  from assms have odd: "odd (count_list ?s dquote)" by (simp add: count_strip)
  then have mem: "dquote \<in> set ?s"
    using count_list_0 [of dquote ?s] by fastforce
  have ev: "even (count_list (before_last_quote ?s) dquote)"
    using count_before_last_quote [OF mem] odd by simp
  have "toks ?s = toks (before_last_quote ?s @ dquote # after_last_quote ?s)"
    using last_quote_split [OF mem] by simp
  also have "\<dots> = toks (before_last_quote ?s) @ [dquote # after_last_quote ?s @ [dquote]]"
    by (rule toks_unterminated [OF ev after_last_quote_free])
  finally show ?thesis
    by (simp add: escape_toks tokenize_toks)
qed

lemma strip_blank:
  assumes "list_all isspace q"
  shows "strip q = []"
proof -
  from assms have d: "dropWhile isspace q = []" by (induction q) auto
  show ?thesis unfolding strip_def d by simp
qed

lemma escape_blank: "list_all isspace q \<Longrightarrow> escape_fts_query q = []"
  by (simp add: escape_fts_query_def strip_blank)

section \<open>The claims about the sanitizer\<close>

text \<open>The facts that evaluate the sanitizer on a literal.\<close>

lemmas sanitizer_eval =
  escape_toks toks.simps(2) strip_def str_def isspace_def dquote_def space_def tokch_def

text \<open>
  C4. An unterminated double quote does not make the sanitizer fail: the model of
  \<open>_escape_fts_query\<close> is a total function with no error branch, and its loops
  terminate. When the number of double quotes in the input is odd, the last one opens a
  span that nothing closes; the output is then the tokens of what stands before that
  quote, followed by one more token, which is the rest of the trimmed input after the
  quote wrapped in double quotes. For the input \<open>find "unclosed\<close> the output is
  \<open>"find" "unclosed"\<close>.
\<close>

theorem C4_unterminated_quote:
  "(odd (count_list query dquote) \<longrightarrow>
      escape_fts_query query =
        join [space] (tokenize (before_last_quote (strip query)) 0 []
                      @ [[dquote] @ after_last_quote (strip query) @ [dquote]]))
   \<and> escape_fts_query (str ''find \"unclosed'') = str ''\"find\" \"unclosed\"''"
proof (intro conjI impI)
  assume "odd (count_list query dquote)"
  then show "escape_fts_query query =
        join [space] (tokenize (before_last_quote (strip query)) 0 []
                      @ [[dquote] @ after_last_quote (strip query) @ [dquote]])"
    by (rule escape_unterminated)
next
  show "escape_fts_query (str ''find \"unclosed'') = str ''\"find\" \"unclosed\"''"
    by (simp add: sanitizer_eval)
qed

theorem C4_unterminated_quote_witness:
  "odd (count_list (str ''say \"good  bye '') dquote)
   \<and> before_last_quote (strip (str ''say \"good  bye '')) = str ''say ''
   \<and> after_last_quote (strip (str ''say \"good  bye '')) = str ''good  bye''
   \<and> tokenize (str ''say '') 0 [] = [str ''\"say\"'']
   \<and> escape_fts_query (str ''say \"good  bye '') = str ''\"say\" \"good  bye\"''"
proof -
  let ?q = "str ''say \"good  bye ''"
  have o: "odd (count_list ?q dquote)"
    by (simp add: str_def dquote_def)
  have b: "before_last_quote (strip ?q) = str ''say ''"
    by (simp add: before_last_quote_def strip_def str_def isspace_def dquote_def)
  have a: "after_last_quote (strip ?q) = str ''good  bye''"
    by (simp add: after_last_quote_def strip_def str_def isspace_def dquote_def)
  have t: "tokenize (str ''say '') 0 [] = [str ''\"say\"'']"
    by (simp add: tokenize_toks toks.simps(2) str_def isspace_def dquote_def tokch_def)
  from C4_unterminated_quote [of ?q] o
  have "escape_fts_query ?q =
        join [space] (tokenize (before_last_quote (strip ?q)) 0 []
                      @ [[dquote] @ after_last_quote (strip ?q) @ [dquote]])"
    by blast
  then have "escape_fts_query ?q = str ''\"say\" \"good  bye\"''"
    unfolding b a t by (simp add: str_def dquote_def space_def)
  with o b a t show ?thesis by blast
qed

text \<open>
  C8. A phrase already in double quotes is kept as it is and not wrapped again, so
  \<open>"hello world"\<close> is its own sanitized form; and for every input, sanitizing the
  output of the sanitizer gives that output back.
\<close>

theorem C8_sanitizer_idempotent:
  "(dquote \<notin> set body \<longrightarrow>
      escape_fts_query ([dquote] @ body @ [dquote]) = [dquote] @ body @ [dquote])
   \<and> escape_fts_query (escape_fts_query query) = escape_fts_query query
   \<and> escape_fts_query (str ''\"hello world\"'') = str ''\"hello world\"''"
proof (intro conjI impI)
  assume nb: "dquote \<notin> set body"
  let ?t = "dquote # body @ [dquote]"
  have "strip ?t = ?t" by (rule strip_id) simp
  moreover have "toks (dquote # body @ dquote # []) = ?t # toks []"
    by (rule toks_quoted [OF nb])
  ultimately show "escape_fts_query ([dquote] @ body @ [dquote]) = [dquote] @ body @ [dquote]"
    by (simp add: escape_toks)
next
  show "escape_fts_query (escape_fts_query query) = escape_fts_query query"
    by (rule escape_idem)
next
  show "escape_fts_query (str ''\"hello world\"'') = str ''\"hello world\"''"
    by (simp add: sanitizer_eval)
qed

theorem C8_sanitizer_idempotent_witness:
  "dquote \<notin> set (str ''hello world'')
   \<and> escape_fts_query ([dquote] @ str ''hello world'' @ [dquote]) = [dquote] @ str ''hello world'' @ [dquote]
   \<and> escape_fts_query (escape_fts_query (str ''a \"b c'')) = str ''\"a\" \"b c\"''"
proof -
  have nb: "dquote \<notin> set (str ''hello world'')"
    by (simp add: str_def dquote_def)
  have e: "escape_fts_query (str ''a \"b c'') = str ''\"a\" \"b c\"''"
    by (simp add: sanitizer_eval)
  from C8_sanitizer_idempotent [of "str ''hello world''" "str ''a \"b c''"] nb e
  show ?thesis by simp
qed

section \<open>Example stores\<close>

text \<open>Rows, stores and collaborators for the concrete instances below.\<close>

text \<open>A session row with the given identifier, project labels and start time; every
  other column is \<open>NULL\<close>.\<close>

definition mk_session :: "pystr \<Rightarrow> pystr option \<Rightarrow> pystr option \<Rightarrow> pystr option \<Rightarrow> session" where
  "mk_session sid proj proj_name start =
     \<lparr>s_session_id = sid, s_project = proj, s_project_name = proj_name, s_title = None,
      s_title_display = None, s_client = None, s_tags = None, s_exchange_count = None,
      s_start_time = start, s_duration_minutes = None, s_has_compaction = None\<rparr>"

text \<open>A topic row of the source \<open>hook\<close>, captured at the given time.\<close>

definition mk_topic :: "pystr \<Rightarrow> pystr \<Rightarrow> pystr \<Rightarrow> topic_row" where
  "mk_topic sid text at =
     \<lparr>tp_session_id = sid, tp_topic = Some text, tp_captured_at = Some at,
      tp_exchange_number = None, tp_source = Some (str ''hook'')\<rparr>"

text \<open>A store with the given sessions and topics and no tool or agent records, in
  which sessions of equal start time come out in the order of the table.\<close>

definition mk_db :: "session list \<Rightarrow> topic_row list \<Rightarrow> db" where
  "mk_db ss ts =
     \<lparr>sessions = ss, session_topics = ts, session_tools = [], session_agents = [],
      tie_order = (\<lambda>s. 0)\<rparr>"

text \<open>A wall clock on which every date subtraction overflows. No instance below reads
  it.\<close>

definition no_clock :: "int \<Rightarrow> error + pystr" where
  "no_clock n = Inl OverflowError"

text \<open>
  An engine that, as SQLite's FTS5 does, rejects the empty \<open>MATCH\<close> expression with
  an error (\<open>fts5: syntax error near ""\<close>), and finds nothing for any other.
\<close>

definition strict_engine :: fts_engine where
  "strict_engine expr limit = (if expr = [] then Inl OperationalError else Inr [])"

text \<open>Three sessions that start on three days; the one of the latest day has two
  topics, stored in the reverse of their capture order.\<close>

definition three_days :: db where
  "three_days =
     mk_db [mk_session (str ''s1'') None None (Some (str ''2024-05-02'')),
            mk_session (str ''s2'') None None (Some (str ''2024-05-03'')),
            mk_session (str ''s3'') None None (Some (str ''2024-05-01''))]
           [mk_topic (str ''s2'') (str ''late'') (str ''10:30''),
            mk_topic (str ''s2'') (str ''early'') (str ''09:15'')]"

text \<open>Two sessions, the first compacted and the second not.\<close>

definition compaction_db :: db where
  "compaction_db =
     mk_db [(mk_session (str ''s1'') None None None)\<lparr>s_has_compaction := Some 1\<rparr>,
            (mk_session (str ''s2'') None None None)\<lparr>s_has_compaction := Some 0\<rparr>] []"

section \<open>Properties of \<open>find\<close>\<close>

lemmas store_eval =
  three_days_def mk_db_def mk_session_def mk_topic_def order_by_desc_def order_by_def
  sql_limit_def enrich_def get_topics_def str_def

lemma find_conditions_none: "find_conditions clock no_criteria = Inr []"
  by (simp add: find_conditions_def no_criteria_def)

lemma sint_int64:
  "- (2 ^ 63) \<le> n \<Longrightarrow> n < 2 ^ 63 \<Longrightarrow> sint (word_of_int n :: 64 word) = n"
  by (simp add: signed_of_int signed_take_bit_int_eq_self)

lemma bind_int_fits:
  "- (2 ^ 63) \<le> n \<Longrightarrow> n < 2 ^ 63 \<Longrightarrow> bind_int n = Inr (word_of_int n)"
  by (simp add: bind_int_def)

lemma bind_int_overflow: "n < - (2 ^ 63) \<or> 2 ^ 63 \<le> n \<Longrightarrow> bind_int n = Inl OverflowError"
  by (auto simp add: bind_int_def)

lemma sql_limit_zero: "sql_limit 0 rows = []"
  by (simp add: sql_limit_def)

lemma sql_limit_nonneg:
  "0 \<le> n \<Longrightarrow> n < 2 ^ 63 \<Longrightarrow> sql_limit (word_of_int n) rows = take (nat n) rows"
  by (simp add: sql_limit_def sint_int64)

lemma sql_limit_negative:
  "- (2 ^ 63) \<le> n \<Longrightarrow> n < 0 \<Longrightarrow> sql_limit (word_of_int n) rows = rows"
  by (simp add: sql_limit_def sint_int64)

lemma scan_sessions_all: "scan_sessions d [] ss = Inr ss"
  by (induction ss) simp_all

lemma select_sessions_all:
  "select_sessions d [] n = Inr (sql_limit n (order_by_desc (tie_order d) s_start_time (sessions d)))"
  by (simp add: select_sessions_def scan_sessions_all sql_limit_zero)

lemma find_no_criteria:
  "- (2 ^ 63) \<le> limit \<Longrightarrow> limit < 2 ^ 63 \<Longrightarrow>
   find_sessions clock d no_criteria limit =
     Inr (map (enrich d)
       (sql_limit (word_of_int limit) (order_by_desc (tie_order d) s_start_time (sessions d))))"
  by (simp add: find_sessions_def find_conditions_none bind_params_def bind_int_fits
      select_sessions_all)

lemma find_no_criteria_overflow:
  "limit < - (2 ^ 63) \<or> 2 ^ 63 \<le> limit \<Longrightarrow>
   find_sessions clock d no_criteria limit = Inl OverflowError"
  by (simp add: find_sessions_def find_conditions_none bind_params_def bind_int_overflow)

lemma map_key_sort_key: "map key (sort_key key xs) = sort (map key xs)"
proof -
  have "mset (map key (sort_key key xs)) = mset (map key xs)" by simp
  moreover have "sorted (map key (sort_key key xs))" by (rule sorted_sort_key)
  ultimately show ?thesis by (rule properties_for_sort [symmetric])
qed

lemma sort_mset_cong: "mset xs = mset ys \<Longrightarrow> sort xs = sort ys"
  by (rule properties_for_sort) simp_all

lemma map_key_order_by_desc: "map key (order_by_desc tie key xs) = rev (sort (map key xs))"
proof -
  have "map key (order_by_desc tie key xs) = rev (map key (sort_key key (rev (sort_key tie xs))))"
    by (simp only: order_by_desc_def rev_map)
  also have "\<dots> = rev (sort (map key (rev (sort_key tie xs))))"
    by (simp only: map_key_sort_key)
  also have "sort (map key (rev (sort_key tie xs))) = sort (map key xs)"
    by (rule sort_mset_cong) simp
  finally show ?thesis .
qed

lemma mset_order_by_desc: "mset (order_by_desc tie key xs) = mset xs"
  by (simp add: order_by_desc_def)

lemma r_start_time_enrich: "map r_start_time (map (enrich d) xs) = map s_start_time xs"
  by (simp add: enrich_def)

lemma length_order_by_desc: "length (order_by_desc tie key xs) = length xs"
  by (simp add: order_by_desc_def)

lemma when_str_empty: "when_str (Some []) mk = when_str None mk"
  by simp

lemma find_conditions_cong:
  "find_conditions clock c = find_conditions clock c' \<Longrightarrow>
   find_sessions clock d c limit = find_sessions clock d c' limit"
  by (simp add: find_sessions_def)

lemma three_days_ordered:
  "order_by_desc (tie_order three_days) s_start_time (sessions three_days) =
   [mk_session (str ''s2'') None None (Some (str ''2024-05-03'')),
    mk_session (str ''s1'') None None (Some (str ''2024-05-02'')),
    mk_session (str ''s3'') None None (Some (str ''2024-05-01''))]"
  by (simp add: store_eval)

section \<open>The claims about \<open>search\<close>, \<open>find\<close> and \<open>recent\<close>\<close>

text \<open>
  C1, as the code has it. For every query that is empty or all whitespace the sanitizer
  returns the empty string, and \<open>search\<close> hands that empty string to the engine as the
  \<open>MATCH\<close> expression, with no case of its own for it: the outcome of \<open>search\<close> is
  the outcome of the engine on the empty expression, its error included.
\<close>

theorem C1_blank_query:
  "list_all isspace query \<longrightarrow>
     escape_fts_query query = []
     \<and> search engine d query limit =
         (case engine [] limit of
            Inl e \<Rightarrow> Inl e
          | Inr rows \<Rightarrow> Inr (map (\<lambda>(s, snippet). (enrich d s, snippet)) rows))"
  by (simp add: search_def escape_blank)

theorem C1_blank_query_witness:
  "list_all isspace (str '' '')
   \<and> escape_fts_query (str '' '') = []
   \<and> search strict_engine (mk_db [] []) (str '' '') 5 = Inl OperationalError"
  using C1_blank_query [of "str '' ''" strict_engine "mk_db [] []" 5]
  by (simp add: strict_engine_def str_def isspace_def)

text \<open>
  C1 as stated fails: with an engine that rejects the empty expression, as FTS5 does,
  \<open>search\<close> on a query of three spaces raises the engine's error.
\<close>

theorem C1_blank_query_counterexample:
  "list_all isspace (str ''   '')
   \<and> search strict_engine (mk_db [] []) (str ''   '') 20 = Inl OperationalError"
  by (simp add: search_def strict_engine_def sanitizer_eval)

text \<open>
  C5, as the code has it. With no criteria the list of conditions is empty and the
  \<open>WHERE\<close> clause \<open>1=1\<close> holds on every row, so the scan selects every session. The
  limit is bound as a signed 64-bit integer. For a limit in that range \<open>find\<close>
  returns all sessions ordered by start time descending and cut by \<open>LIMIT\<close>: when the
  limit is not negative, the first \<open>limit\<close> of them, whose start times are the
  \<open>limit\<close> greatest ones in descending order and whose number is the smaller of the
  limit and the number of sessions; when it is negative, all of them. The order is a
  rearrangement of the table whose start times descend, whatever the order among equal
  start times. For a limit outside the range \<open>find\<close> raises \<open>OverflowError\<close>. The
  default limit is 20.
\<close>

theorem C5_find_no_criteria:
  "find_conditions clock no_criteria = Inr []
   \<and> eval_where d s [] = Inr True
   \<and> scan_sessions d [] (sessions d) = Inr (sessions d)
   \<and> (0 \<le> limit \<and> limit < 2 ^ 63 \<longrightarrow>
        find_sessions clock d no_criteria limit
          = Inr (map (enrich d)
              (take (nat limit) (order_by_desc (tie_order d) s_start_time (sessions d))))
        \<and> map r_start_time (map (enrich d)
              (take (nat limit) (order_by_desc (tie_order d) s_start_time (sessions d))))
          = take (nat limit) (rev (sort (map s_start_time (sessions d))))
        \<and> length (map (enrich d)
              (take (nat limit) (order_by_desc (tie_order d) s_start_time (sessions d))))
          = min (nat limit) (length (sessions d)))
   \<and> (- (2 ^ 63) \<le> limit \<and> limit < 0 \<longrightarrow>
        find_sessions clock d no_criteria limit
          = Inr (map (enrich d) (order_by_desc (tie_order d) s_start_time (sessions d))))
   \<and> (limit < - (2 ^ 63) \<or> 2 ^ 63 \<le> limit \<longrightarrow>
        find_sessions clock d no_criteria limit = Inl OverflowError)
   \<and> mset (order_by_desc (tie_order d) s_start_time (sessions d)) = mset (sessions d)
   \<and> map s_start_time (order_by_desc (tie_order d) s_start_time (sessions d))
       = rev (sort (map s_start_time (sessions d)))
   \<and> find_sessions clock d no_criteria default_limit
       = Inr (map (enrich d) (take 20 (order_by_desc (tie_order d) s_start_time (sessions d))))"
proof (intro conjI impI)
  show "find_conditions clock no_criteria = Inr []" by (rule find_conditions_none)
  show "eval_where d s [] = Inr True" by simp
  show "scan_sessions d [] (sessions d) = Inr (sessions d)" by (rule scan_sessions_all)
  show "mset (order_by_desc (tie_order d) s_start_time (sessions d)) = mset (sessions d)"
    by (rule mset_order_by_desc)
  show "map s_start_time (order_by_desc (tie_order d) s_start_time (sessions d))
       = rev (sort (map s_start_time (sessions d)))"
    by (rule map_key_order_by_desc)
  have "find_sessions clock d no_criteria 20
       = Inr (map (enrich d) (take (nat 20) (order_by_desc (tie_order d) s_start_time (sessions d))))"
    by (simp add: find_no_criteria [of 20, simplified] sql_limit_nonneg [of 20, simplified])
  then show "find_sessions clock d no_criteria default_limit
       = Inr (map (enrich d) (take 20 (order_by_desc (tie_order d) s_start_time (sessions d))))"
    by (simp add: default_limit_def)
next
  assume a: "0 \<le> limit \<and> limit < 2 ^ 63"
  then have r: "- (2 ^ 63) \<le> limit" "limit < 2 ^ 63" "0 \<le> limit" by simp_all
  show "find_sessions clock d no_criteria limit
          = Inr (map (enrich d)
              (take (nat limit) (order_by_desc (tie_order d) s_start_time (sessions d))))"
    by (simp only: find_no_criteria [OF r(1) r(2)] sql_limit_nonneg [OF r(3) r(2)])
  show "map r_start_time (map (enrich d)
              (take (nat limit) (order_by_desc (tie_order d) s_start_time (sessions d))))
          = take (nat limit) (rev (sort (map s_start_time (sessions d))))"
    unfolding r_start_time_enrich by (simp only: take_map [symmetric] map_key_order_by_desc)
  show "length (map (enrich d)
              (take (nat limit) (order_by_desc (tie_order d) s_start_time (sessions d))))
          = min (nat limit) (length (sessions d))"
    by (simp add: length_order_by_desc min.commute)
next
  assume a: "- (2 ^ 63) \<le> limit \<and> limit < 0"
  then have r: "- (2 ^ 63) \<le> limit" "limit < 2 ^ 63" "limit < 0" by simp_all
  show "find_sessions clock d no_criteria limit
          = Inr (map (enrich d) (order_by_desc (tie_order d) s_start_time (sessions d)))"
    by (simp only: find_no_criteria [OF r(1) r(2)] sql_limit_negative [OF r(1) r(3)])
next
  assume "limit < - (2 ^ 63) \<or> 2 ^ 63 \<le> limit"
  then show "find_sessions clock d no_criteria limit = Inl OverflowError"
    by (rule find_no_criteria_overflow)
qed

theorem C5_find_no_criteria_witness:
  "(0::int) \<le> 2 \<and> (2::int) < 2 ^ 63
   \<and> find_sessions no_clock three_days no_criteria 2
      = Inr (map (enrich three_days)
          [mk_session (str ''s2'') None None (Some (str ''2024-05-03'')),
           mk_session (str ''s1'') None None (Some (str ''2024-05-02''))])
   \<and> - (2 ^ 63) \<le> (- 1 :: int) \<and> (- 1 :: int) < 0
   \<and> find_sessions no_clock three_days no_criteria (- 1)
      = Inr (map (enrich three_days)
          [mk_session (str ''s2'') None None (Some (str ''2024-05-03'')),
           mk_session (str ''s1'') None None (Some (str ''2024-05-02'')),
           mk_session (str ''s3'') None None (Some (str ''2024-05-01''))])
   \<and> (2 ^ 63 :: int) \<le> 2 ^ 63
   \<and> find_sessions no_clock three_days no_criteria (2 ^ 63) = Inl OverflowError"
proof -
  note t = C5_find_no_criteria [of no_clock three_days "mk_session [] None None None"]
  have a: "find_sessions no_clock three_days no_criteria 2
      = Inr (map (enrich three_days)
          [mk_session (str ''s2'') None None (Some (str ''2024-05-03'')),
           mk_session (str ''s1'') None None (Some (str ''2024-05-02''))])"
    using t [of 2] unfolding three_days_ordered by simp
  have b: "find_sessions no_clock three_days no_criteria (- 1)
      = Inr (map (enrich three_days)
          [mk_session (str ''s2'') None None (Some (str ''2024-05-03'')),
           mk_session (str ''s1'') None None (Some (str ''2024-05-02'')),
           mk_session (str ''s3'') None None (Some (str ''2024-05-01''))])"
    using t [of "- 1"] unfolding three_days_ordered by simp
  have c: "find_sessions no_clock three_days no_criteria (2 ^ 63) = Inl OverflowError"
    using t [of "2 ^ 63"] by simp
  from a b c show ?thesis by simp
qed

text \<open>
  C5 as stated fails for a negative limit and for a limit beyond 64 bits: three
  sessions are more rows than the limit \<open>-1\<close>, and \<open>find\<close> returns all three; with
  the limit \<open>2\<^sup>6\<^sup>3\<close> it raises \<open>OverflowError\<close> and returns no rows.
\<close>

theorem C5_negative_limit_counterexample:
  "(- 1 :: int) < int (length (sessions three_days))
   \<and> find_sessions no_clock three_days no_criteria (- 1)
      = Inr (map (enrich three_days)
          [mk_session (str ''s2'') None None (Some (str ''2024-05-03'')),
           mk_session (str ''s1'') None None (Some (str ''2024-05-02'')),
           mk_session (str ''s3'') None None (Some (str ''2024-05-01''))])
   \<and> find_sessions no_clock three_days no_criteria (2 ^ 63) = Inl OverflowError"
proof -
  have "find_sessions no_clock three_days no_criteria (- 1)
        = Inr (map (enrich three_days)
            (order_by_desc (tie_order three_days) s_start_time (sessions three_days)))"
    by (simp only: find_no_criteria [of "- 1", simplified] sql_limit_negative [of "- 1", simplified])
  moreover have "find_sessions no_clock three_days no_criteria (2 ^ 63) = Inl OverflowError"
    by (rule find_no_criteria_overflow) simp
  ultimately show ?thesis
    by (simp add: three_days_ordered)
qed



text \<open>
  C10. A falsy value of a criterion adds no condition: \<open>days=0\<close> and the empty string
  for \<open>client\<close>, \<open>tag\<close>, \<open>tool\<close>, \<open>agent\<close>, \<open>date\<close>, \<open>project\<close> or
  \<open>exclude_project\<close> give the result of leaving the criterion out, whatever the other
  criteria are, and \<open>week=False\<close> is the default itself. Only \<open>has_compaction\<close> tells
  \<open>False\<close> from unset: \<open>False\<close> adds the condition \<open>s.has_compaction = 0\<close>, which
  on the store of one compacted and one other session keeps the second only.
\<close>

theorem C10_falsy_criteria:
  "find_sessions clock d (c\<lparr>days := Some 0\<rparr>) limit = find_sessions clock d (c\<lparr>days := None\<rparr>) limit
   \<and> find_sessions clock d (c\<lparr>client := Some []\<rparr>) limit = find_sessions clock d (c\<lparr>client := None\<rparr>) limit
   \<and> find_sessions clock d (c\<lparr>tag := Some []\<rparr>) limit = find_sessions clock d (c\<lparr>tag := None\<rparr>) limit
   \<and> find_sessions clock d (c\<lparr>tool := Some []\<rparr>) limit = find_sessions clock d (c\<lparr>tool := None\<rparr>) limit
   \<and> find_sessions clock d (c\<lparr>agent := Some []\<rparr>) limit = find_sessions clock d (c\<lparr>agent := None\<rparr>) limit
   \<and> find_sessions clock d (c\<lparr>date := Some []\<rparr>) limit = find_sessions clock d (c\<lparr>date := None\<rparr>) limit
   \<and> find_sessions clock d (c\<lparr>project := Some []\<rparr>) limit = find_sessions clock d (c\<lparr>project := None\<rparr>) limit
   \<and> find_sessions clock d (c\<lparr>exclude_project := Some []\<rparr>) limit
       = find_sessions clock d (c\<lparr>exclude_project := None\<rparr>) limit
   \<and> find_sessions clock d (no_criteria\<lparr>days := Some 0\<rparr>) limit = find_sessions clock d no_criteria limit
   \<and> find_sessions clock d (no_criteria\<lparr>week := False\<rparr>) limit = find_sessions clock d no_criteria limit
   \<and> find_conditions clock (no_criteria\<lparr>has_compaction := Some False\<rparr>) = Inr [CompactionEq 0]
   \<and> find_conditions clock (no_criteria\<lparr>has_compaction := None\<rparr>) = Inr []
   \<and> map r_session_id (projr (find_sessions clock compaction_db (no_criteria\<lparr>has_compaction := Some False\<rparr>) 20))
       = [str ''s2'']
   \<and> map r_session_id (projr (find_sessions clock compaction_db (no_criteria\<lparr>has_compaction := None\<rparr>) 20))
       = [str ''s1'', str ''s2'']"
proof -
  have 1: "find_sessions clock d (c\<lparr>days := Some 0\<rparr>) limit = find_sessions clock d (c\<lparr>days := None\<rparr>) limit"
    by (rule find_conditions_cong) (simp add: find_conditions_def cong: sum.case_cong option.case_cong if_cong)
  have 2: "find_sessions clock d (c\<lparr>client := Some []\<rparr>) limit = find_sessions clock d (c\<lparr>client := None\<rparr>) limit"
    by (rule find_conditions_cong) (simp add: find_conditions_def cong: sum.case_cong option.case_cong if_cong)
  have 3: "find_sessions clock d (c\<lparr>tag := Some []\<rparr>) limit = find_sessions clock d (c\<lparr>tag := None\<rparr>) limit"
    by (rule find_conditions_cong) (simp add: find_conditions_def cong: sum.case_cong option.case_cong if_cong)
  have 4: "find_sessions clock d (c\<lparr>tool := Some []\<rparr>) limit = find_sessions clock d (c\<lparr>tool := None\<rparr>) limit"
    by (rule find_conditions_cong) (simp add: find_conditions_def cong: sum.case_cong option.case_cong if_cong)
  have 5: "find_sessions clock d (c\<lparr>agent := Some []\<rparr>) limit = find_sessions clock d (c\<lparr>agent := None\<rparr>) limit"
    by (rule find_conditions_cong) (simp add: find_conditions_def cong: sum.case_cong option.case_cong if_cong)
  have 6: "find_sessions clock d (c\<lparr>date := Some []\<rparr>) limit = find_sessions clock d (c\<lparr>date := None\<rparr>) limit"
    by (rule find_conditions_cong) (simp add: find_conditions_def cong: sum.case_cong option.case_cong if_cong)
  have 7: "find_sessions clock d (c\<lparr>project := Some []\<rparr>) limit = find_sessions clock d (c\<lparr>project := None\<rparr>) limit"
    by (rule find_conditions_cong) (simp add: find_conditions_def cong: sum.case_cong option.case_cong if_cong)
  have 8: "find_sessions clock d (c\<lparr>exclude_project := Some []\<rparr>) limit
       = find_sessions clock d (c\<lparr>exclude_project := None\<rparr>) limit"
    by (rule find_conditions_cong) (simp add: find_conditions_def cong: sum.case_cong option.case_cong if_cong)
  have 9: "find_sessions clock d (no_criteria\<lparr>days := Some 0\<rparr>) limit = find_sessions clock d no_criteria limit"
    by (rule find_conditions_cong) (simp add: find_conditions_def no_criteria_def cong: sum.case_cong option.case_cong if_cong)
  have 10: "find_sessions clock d (no_criteria\<lparr>week := False\<rparr>) limit = find_sessions clock d no_criteria limit"
    by (simp add: no_criteria_def)
  have 11: "find_conditions clock (no_criteria\<lparr>has_compaction := Some False\<rparr>) = Inr [CompactionEq 0]"
    by (simp add: find_conditions_def no_criteria_def)
  have 12: "find_conditions clock (no_criteria\<lparr>has_compaction := None\<rparr>) = Inr []"
    by (simp add: find_conditions_def no_criteria_def)
  have 13: "map r_session_id (projr (find_sessions clock compaction_db (no_criteria\<lparr>has_compaction := Some False\<rparr>) 20))
       = [str ''s2'']"
    by (simp add: find_sessions_def 11 bind_params_def bind_int_def select_sessions_def
        compaction_db_def store_eval)
  have 14: "map r_session_id (projr (find_sessions clock compaction_db (no_criteria\<lparr>has_compaction := None\<rparr>) 20))
       = [str ''s1'', str ''s2'']"
    by (simp add: find_sessions_def 12 bind_params_def bind_int_def select_sessions_def
        compaction_db_def store_eval)
  from 1 2 3 4 5 6 7 8 9 10 11 12 13 14 show ?thesis by blast
qed

section \<open>The claim about topics\<close>

text \<open>One session with eleven topic entries.\<close>

definition eleven_topics :: db where
  "eleven_topics =
     mk_db [mk_session (str ''s1'') None None (Some (str ''2024-05-02''))]
           (replicate 11 (mk_topic (str ''s1'') (str ''again'') (str ''09:15'')))"

text \<open>An engine that finds that session for every expression.\<close>

definition one_hit_engine :: fts_engine where
  "one_hit_engine expr limit =
     Inr [(mk_session (str ''s1'') None None (Some (str ''2024-05-02'')), Some (str ''...''))]"

lemma sorted_order_by: "sorted (map key (order_by key rows))"
  by (simp add: order_by_def)

lemma length_order_by: "length (order_by key rows) = length rows"
  by (simp add: order_by_def)

lemma mset_order_by: "mset (order_by key rows) = mset rows"
  by (simp add: order_by_def)

lemma get_topics_take:
  "map c_topic (get_topics d sid) = take 10 (map topic (topics d sid))"
  "map c_source (get_topics d sid) = take 10 (map source (topics d sid))"
  by (simp_all add: get_topics_def topics_def sql_limit_def take_map comp_def)

lemma length_get_topics: "length (get_topics d sid) = min 10 (length (topics d sid))"
  by (simp add: get_topics_def topics_def sql_limit_def min.commute)

lemma find_sessions_topics:
  "find_sessions clock d c limit = Inr rs \<Longrightarrow>
   list_all (\<lambda>r. r_topics r = get_topics d (r_session_id r)) rs"
  by (auto simp: find_sessions_def list_all_iff enrich_def split: sum.splits)

lemma search_topics:
  "search engine d query limit = Inr hits \<Longrightarrow>
   list_all (\<lambda>(r, snippet). r_topics r = get_topics d (r_session_id r)) hits"
  by (auto simp: search_def list_all_iff enrich_def split: sum.splits)

lemma eleven_len: "length (topics eleven_topics (str ''s1'')) = 11"
  by (simp add: topics_def eleven_topics_def mk_db_def mk_topic_def length_order_by)

text \<open>
  C6. The topic list attached to a row of \<open>search\<close> or \<open>find\<close> is what
  \<open>_get_topics\<close> returns for the session of the row: at most 10 entries, the first 10
  of the session's timeline in capture order, each keeping the topic text and the source
  only (the type \<open>compact_topic\<close> has no other field). The operation \<open>topics\<close>
  returns every entry of the session, once each, with capture time, exchange number and
  source, ordered by capture time ascending.
\<close>

theorem C6_topics_cap:
  "length (get_topics d sid) \<le> 10
   \<and> length (get_topics d sid) = min 10 (length (topics d sid))
   \<and> map c_topic (get_topics d sid) = take 10 (map topic (topics d sid))
   \<and> map c_source (get_topics d sid) = take 10 (map source (topics d sid))
   \<and> mset (topics d sid)
       = mset (map (\<lambda>t. \<lparr>topic = tp_topic t, captured_at = tp_captured_at t,
                            exchange_number = tp_exchange_number t, source = tp_source t\<rparr>)
                 (filter (\<lambda>t. tp_session_id t = sid) (session_topics d)))
   \<and> length (topics d sid) = length (filter (\<lambda>t. tp_session_id t = sid) (session_topics d))
   \<and> sorted (map captured_at (topics d sid))
   \<and> (find_sessions clock d c limit = Inr rs \<longrightarrow>
        list_all (\<lambda>r. r_topics r = get_topics d (r_session_id r)) rs)
   \<and> (search engine d query limit = Inr hits \<longrightarrow>
        list_all (\<lambda>(r, snippet). r_topics r = get_topics d (r_session_id r)) hits)"
proof (intro conjI impI)
  show "length (get_topics d sid) \<le> 10"
    by (simp add: length_get_topics)
  show "length (get_topics d sid) = min 10 (length (topics d sid))"
    by (rule length_get_topics)
  show "map c_topic (get_topics d sid) = take 10 (map topic (topics d sid))"
    by (rule get_topics_take)
  show "map c_source (get_topics d sid) = take 10 (map source (topics d sid))"
    by (rule get_topics_take)
  show "mset (topics d sid)
       = mset (map (\<lambda>t. \<lparr>topic = tp_topic t, captured_at = tp_captured_at t,
                            exchange_number = tp_exchange_number t, source = tp_source t\<rparr>)
                 (filter (\<lambda>t. tp_session_id t = sid) (session_topics d)))"
    by (simp add: topics_def mset_order_by)
  show "length (topics d sid) = length (filter (\<lambda>t. tp_session_id t = sid) (session_topics d))"
    by (simp add: topics_def length_order_by)
  have "map captured_at (topics d sid)
        = map tp_captured_at (order_by tp_captured_at (filter (\<lambda>t. tp_session_id t = sid) (session_topics d)))"
    by (simp add: topics_def comp_def)
  then show "sorted (map captured_at (topics d sid))"
    by (simp only: sorted_order_by)
next
  assume "find_sessions clock d c limit = Inr rs"
  then show "list_all (\<lambda>r. r_topics r = get_topics d (r_session_id r)) rs"
    by (rule find_sessions_topics)
next
  assume "search engine d query limit = Inr hits"
  then show "list_all (\<lambda>(r, snippet). r_topics r = get_topics d (r_session_id r)) hits"
    by (rule search_topics)
qed

theorem C6_topics_cap_witness:
  "length (topics eleven_topics (str ''s1'')) = 11
   \<and> length (get_topics eleven_topics (str ''s1'')) = 10
   \<and> find_sessions no_clock eleven_topics no_criteria 20
       = Inr [enrich eleven_topics (mk_session (str ''s1'') None None (Some (str ''2024-05-02'')))]
   \<and> search one_hit_engine eleven_topics (str ''again'') 20
       = Inr [(enrich eleven_topics (mk_session (str ''s1'') None None (Some (str ''2024-05-02''))),
               Some (str ''...''))]
   \<and> length (r_topics (enrich eleven_topics
        (mk_session (str ''s1'') None None (Some (str ''2024-05-02''))))) = 10"
proof -
  let ?s = "mk_session (str ''s1'') None None (Some (str ''2024-05-02''))"
  have f: "find_sessions no_clock eleven_topics no_criteria 20 = Inr [enrich eleven_topics ?s]"
    by (simp add: find_no_criteria [of 20, simplified] sql_limit_def order_by_desc_def
        eleven_topics_def mk_db_def)
  have s: "search one_hit_engine eleven_topics (str ''again'') 20
           = Inr [(enrich eleven_topics ?s, Some (str ''...''))]"
    by (simp add: search_def one_hit_engine_def)
  note t = C6_topics_cap [of eleven_topics "str ''s1''" no_clock no_criteria 20
      "[enrich eleven_topics ?s]" one_hit_engine "str ''again''"
      "[(enrich eleven_topics ?s, Some (str ''...''))]"]
  from t have g: "length (get_topics eleven_topics (str ''s1'')) = 10"
    by (simp add: eleven_len)
  from t f have "r_topics (enrich eleven_topics ?s)
                 = get_topics eleven_topics (r_session_id (enrich eleven_topics ?s))"
    by simp
  then have "length (r_topics (enrich eleven_topics ?s)) = 10"
    using g by (simp add: enrich_def mk_session_def)
  with eleven_len g f s show ?thesis by simp
qed

section \<open>The claim about missing collaborators\<close>

lemma try_imports_none: "try_imports None None None = None"
  by (simp add: try_imports_def)

lemma print_results_no_analyzer:
  "print_results None True query rs =
     (concat (map (\<lambda>r. [Formatted r, Line context_notice, Line []])
        (takeWhile (\<lambda>r. \<not> isl (format_result r)) rs)),
      if list_all (\<lambda>r. \<not> isl (format_result r)) rs then None
      else Some TypeError)"
  by (induction rs) (simp_all add: format_result_def)

lemma print_results_error:
  "snd (print_results None True query rs :: 'ctx printed list \<times> error option)
   = snd (print_results get_context False query rs :: 'ctx printed list \<times> error option)"
  by (induction rs) (simp_all add: format_result_def case_prod_beta)

text \<open>
  C9. When none of the three imports of the indexer succeeds, \<open>stats\<close> returns the
  dictionary \<open>{"error": "SessionIndexer not available"}\<close> as its value and raises
  nothing. When none of the three imports of the analyzer succeeds, \<open>search --context\<close>
  prints each result followed by the notice that the context is not available and an
  empty line. The absence raises nothing: the command ends with an error only when
  \<open>search\<close> itself raised it, or when \<open>format_result\<close> raises \<open>TypeError\<close> on a
  result, which ends the loop at that result; and that is the error with which the
  command ends when \<open>--context\<close> is not given.
\<close>

theorem C9_missing_collaborator:
  "stats None None None d = Inr (ErrorDict (str ''SessionIndexer not available''))
   \<and> search_command engine d None None None query limit True =
       (case search engine d query limit of
          Inl e \<Rightarrow> ([], Some e)
        | Inr results \<Rightarrow>
            if results = [] then ([NoResults query], None)
            else (Header (length results) query
                    # concat (map (\<lambda>r. [Formatted r, Line context_notice, Line []])
                        (takeWhile (\<lambda>r. \<not> isl (format_result r))
                           results)),
                  if list_all (\<lambda>r. \<not> isl (format_result r)) results
                  then None else Some TypeError))
   \<and> snd (search_command engine d None None None query limit True
            :: 'ctx printed list \<times> error option)
       = snd (search_command engine d first second third query limit False
            :: 'ctx printed list \<times> error option)"
proof (intro conjI)
  show "stats None None None d = Inr (ErrorDict (str ''SessionIndexer not available''))"
    by (simp add: stats_def try_imports_def)
  show "search_command engine d None None None query limit True =
       (case search engine d query limit of
          Inl e \<Rightarrow> ([], Some e)
        | Inr results \<Rightarrow>
            if results = [] then ([NoResults query], None)
            else (Header (length results) query
                    # concat (map (\<lambda>r. [Formatted r, Line context_notice, Line []])
                        (takeWhile (\<lambda>r. \<not> isl (format_result r))
                           results)),
                  if list_all (\<lambda>r. \<not> isl (format_result r)) results
                  then None else Some TypeError))"
    by (simp add: search_command_def try_imports_def print_results_no_analyzer
        split: sum.splits)
  show "snd (search_command engine d None None None query limit True
            :: 'ctx printed list \<times> error option)
       = snd (search_command engine d first second third query limit False
            :: 'ctx printed list \<times> error option)"
    by (simp add: search_command_def case_prod_beta try_imports_none
        print_results_error [of query _ "try_imports first second third"] split: sum.splits)
qed

lemma topics_present_formats:
  assumes "list_all (\<lambda>t. tp_topic t \<noteq> None) (session_topics d)"
  shows "format_result (enrich d s, snippet) = Inr (enrich d s, snippet)"
proof -
  have "c_topic t \<noteq> None" if "t \<in> set (get_topics d (s_session_id s))" for t
    using that assms
    by (auto simp add: get_topics_def sql_limit_def order_by_def list_all_iff
        dest!: in_set_takeD split: if_splits)
  then have "\<not> list_ex (\<lambda>t. c_topic t = None) (take 5 (r_topics (enrich d s)))"
    by (auto simp add: list_ex_iff enrich_def dest!: in_set_takeD)
  then show ?thesis
    by (simp add: format_result_def)
qed

lemma eleven_formats:
  "format_result (enrich eleven_topics (mk_session (str ''s1'') None None (Some (str ''2024-05-02''))),
       Some (str ''...''))
   = Inr (enrich eleven_topics (mk_session (str ''s1'') None None (Some (str ''2024-05-02''))),
       Some (str ''...''))"
  by (rule topics_present_formats)
    (simp add: eleven_topics_def mk_db_def mk_topic_def list_all_iff)

theorem C9_missing_collaborator_witness:
  "(search_command one_hit_engine eleven_topics None None None (str ''again'') 20 True
      :: unit printed list \<times> error option)
   = ([Header 1 (str ''again''),
       Formatted (enrich eleven_topics
         (mk_session (str ''s1'') None None (Some (str ''2024-05-02''))), Some (str ''...'')),
       Line context_notice, Line []], None)"
  using C9_missing_collaborator [where 'ctx = unit, of eleven_topics one_hit_engine
      "str ''again''" 20, THEN conjunct2, THEN conjunct1]
  by (simp add: search_def one_hit_engine_def eleven_formats)

section \<open>The claim about identifier prefixes\<close>

text \<open>
  In the spec's words: \<open>x\<close> is a prefix of \<open>s\<close>, upper and lower case ASCII letters
  being equal.
\<close>

definition starts_with_ci :: "pystr \<Rightarrow> pystr \<Rightarrow> bool" where
  "starts_with_ci x s \<longleftrightarrow> map ascii_lower (take (length x) s) = map ascii_lower x"

text \<open>Two sessions whose identifiers share the prefix \<open>ab\<close>.\<close>

definition two_sessions :: db where
  "two_sessions =
     mk_db [mk_session (str ''ab12'') None None None, mk_session (str ''ab34'') None None None] []"

text \<open>An argument that is one lone surrogate, \<open>U+DC80\<close>: what Python makes of the
  undecodable byte \<open>0x80\<close> on the command line.\<close>

definition lone_surrogate :: pystr where
  "lone_surrogate = [56448]"

lemma pattern_compare_percent: "pattern_compare [percent] s"
  by (induction s) simp_all

lemma pattern_compare_literal_prefix:
  "percent \<notin> set p \<Longrightarrow> underscore \<notin> set p \<Longrightarrow>
   pattern_compare (p @ [percent]) s \<longleftrightarrow> starts_with_ci p s"
proof (induction p arbitrary: s)
  case Nil
  then show ?case by (simp add: pattern_compare_percent starts_with_ci_def)
next
  case (Cons a p)
  then have a: "a \<noteq> percent" "a \<noteq> underscore"
    and ih: "\<And>t. pattern_compare (p @ [percent]) t \<longleftrightarrow> starts_with_ci p t"
    by auto
  show ?case
  proof (cases s)
    case Nil
    with a show ?thesis by (simp add: starts_with_ci_def)
  next
    case (Cons c cs)
    with a ih [of cs] show ?thesis by (auto simp: starts_with_ci_def)
  qed
qed

lemma c_string_no_nul: "0 \<notin> set s \<Longrightarrow> c_string s = s"
  by (induction s) (simp_all add: c_string_def)

lemma utf8_bytes_append: "utf8_bytes (a @ b) = utf8_bytes a + utf8_bytes b"
  by (simp add: utf8_bytes_def)

lemma utf8_bytes_le: "utf8_bytes s \<le> 4 * length s"
  by (induction s) (simp_all add: utf8_bytes_def utf8_len_def)

lemma utf8_bytes_percent: "utf8_bytes [percent] = 1"
  by (simp add: utf8_bytes_def utf8_len_def percent_def)

lemma bind_text_ok: "\<not> list_ex is_surrogate s \<Longrightarrow> bind_text s = Inr s"
  by (simp add: bind_text_def)

lemma bind_text_surrogate: "list_ex is_surrogate s \<Longrightarrow> bind_text s = Inl UnicodeEncodeError"
  by (simp add: bind_text_def)

lemma percent_no_surrogate: "\<not> is_surrogate percent"
  by (simp add: is_surrogate_def percent_def)

lemma like_rows_ok:
  "utf8_bytes pat \<le> max_like_pattern_length \<Longrightarrow>
   like_rows column pat rows =
     Inr (filter (\<lambda>r. case column r of
                         None \<Rightarrow> False
                       | Some v \<Rightarrow> pattern_compare (c_string pat) (c_string v)) rows)"
  by (induction rows) (simp_all add: sql_like_def like_match_def split: option.splits)

lemma prefix_matches_short:
  assumes "\<not> list_ex is_surrogate sid" and "length sid < 36"
  shows "prefix_matches d sid =
     Inr (map s_session_id
       (filter (\<lambda>s. pattern_compare (c_string (sid @ [percent])) (c_string (s_session_id s)))
          (sessions d)))"
proof -
  have "utf8_bytes sid \<le> 4 * length sid" by (rule utf8_bytes_le)
  with assms(2) have "utf8_bytes (sid @ [percent]) \<le> max_like_pattern_length"
    by (simp add: utf8_bytes_append utf8_bytes_percent max_like_pattern_length_def)
  then have "like_rows (\<lambda>s. Some (s_session_id s)) (sid @ [percent]) (sessions d) =
     Inr (filter (\<lambda>s. pattern_compare (c_string (sid @ [percent])) (c_string (s_session_id s)))
          (sessions d))"
    by (simp add: like_rows_ok)
  moreover have "bind_text (sid @ [percent]) = Inr (sid @ [percent])"
    using assms(1) by (simp add: bind_text_def percent_no_surrogate)
  ultimately show ?thesis
    by (simp add: prefix_matches_def)
qed

lemma prefix_matches_surrogate:
  "list_ex is_surrogate sid \<Longrightarrow> prefix_matches d sid = Inl UnicodeEncodeError"
  by (simp add: prefix_matches_def bind_text_def)

lemma print_timeline_takeWhile:
  "print_timeline entries =
     (takeWhile (\<lambda>t. source t \<noteq> None) entries,
      if list_all (\<lambda>t. source t \<noteq> None) entries then None else Some TypeError)"
  by (induction entries) (auto split: option.splits)

lemma topics_command_surrogate:
  "list_ex is_surrogate sid \<Longrightarrow> topics_command d sid = Raised UnicodeEncodeError"
  by (cases "length sid < 36")
    (simp_all add: topics_command_def resolve_session_id_def prefix_matches_surrogate
      bind_text_surrogate)

lemma topics_command_resolved:
  "resolve_session_id d sid = Inr (Some full) \<Longrightarrow> \<not> list_ex is_surrogate full \<Longrightarrow>
   topics_command d sid =
     (case topics d full of
        [] \<Rightarrow> NoTopics full
      | e # es \<Rightarrow> Timeline full (fst (print_timeline (e # es))) (snd (print_timeline (e # es))))"
  by (simp add: topics_command_def bind_text_ok case_prod_beta split: list.splits)

lemmas like_eval =
  sql_like_def like_match_def c_string_def utf8_bytes_def utf8_len_def
  max_like_pattern_length_def percent_def underscore_def ascii_lower_def
  bind_text_def is_surrogate_def

lemma two_matches:
  "prefix_matches two_sessions (str ''AB'') = Inr [str ''ab12'', str ''ab34'']"
  by (simp add: prefix_matches_def two_sessions_def mk_db_def mk_session_def str_def like_eval)

lemma no_matches: "prefix_matches two_sessions (str ''zz'') = Inr []"
  by (simp add: prefix_matches_def two_sessions_def mk_db_def mk_session_def str_def like_eval)

lemma day_matches: "prefix_matches three_days (str ''s2'') = Inr [str ''s2'']"
  by (simp add: prefix_matches_def three_days_def mk_db_def mk_session_def str_def like_eval)

lemma day_topics:
  "topics three_days (str ''s2'') =
     [\<lparr>topic = Some (str ''early''), captured_at = Some (str ''09:15''),
       exchange_number = None, source = Some (str ''hook'')\<rparr>,
      \<lparr>topic = Some (str ''late''), captured_at = Some (str ''10:30''),
       exchange_number = None, source = Some (str ''hook'')\<rparr>]"
  by (simp add: topics_def three_days_def mk_db_def mk_topic_def order_by_def str_def)

text \<open>
  C3, as the code has it. An identifier with a lone surrogate cannot be bound as a
  parameter, and the command raises \<open>UnicodeEncodeError\<close>. Any other identifier
  shorter than 36 characters is looked up with the pattern \<open>sid%\<close>, and the first row
  that the statement yields is taken: no row is the outcome \<open>NoSessionFound\<close>, reported
  and not raised; one row or several rows resolve to the first, so that a prefix shared
  by several sessions is not reported as ambiguous. An identifier of 36 characters or
  more is used as it is. With the identifier resolved, the command reports that the
  session has no topics, or prints its timeline, up to the first entry whose source is
  \<open>NULL\<close>, on which it raises \<open>TypeError\<close>. For an identifier without \<open>%\<close>, \<open>_\<close>
  and \<open>NUL\<close> the pattern matches exactly the session identifiers that start with it,
  upper and lower case ASCII letters being equal.
\<close>

theorem C3_prefix_resolution:
  "(list_ex is_surrogate sid \<longrightarrow> topics_command d sid = Raised UnicodeEncodeError)
   \<and> (\<not> list_ex is_surrogate sid \<and> length sid < 36 \<longrightarrow>
        prefix_matches d sid
          = Inr (map s_session_id
              (filter (\<lambda>s. pattern_compare (c_string (sid @ [percent]))
                              (c_string (s_session_id s))) (sessions d)))
        \<and> (prefix_matches d sid = Inr [] \<longrightarrow>
             resolve_session_id d sid = Inr None
             \<and> topics_command d sid = NoSessionFound sid)
        \<and> (prefix_matches d sid = Inr (full # others) \<longrightarrow>
             resolve_session_id d sid = Inr (Some full)
             \<and> (\<not> list_ex is_surrogate full \<longrightarrow>
                  topics_command d sid
                    = (case topics d full of
                         [] \<Rightarrow> NoTopics full
                       | e # es \<Rightarrow> Timeline full (fst (print_timeline (e # es)))
                                     (snd (print_timeline (e # es)))))))
   \<and> (\<not> list_ex is_surrogate sid \<and> 36 \<le> length sid \<longrightarrow>
        resolve_session_id d sid = Inr (Some sid)
        \<and> topics_command d sid
            = (case topics d sid of
                 [] \<Rightarrow> NoTopics sid
               | e # es \<Rightarrow> Timeline sid (fst (print_timeline (e # es)))
                             (snd (print_timeline (e # es)))))
   \<and> print_timeline entries
       = (takeWhile (\<lambda>t. source t \<noteq> None) entries,
          if list_all (\<lambda>t. source t \<noteq> None) entries then None else Some TypeError)
   \<and> (\<not> list_ex is_surrogate sid \<and> length sid < 36
        \<and> percent \<notin> set sid \<and> underscore \<notin> set sid \<and> 0 \<notin> set sid \<longrightarrow>
        prefix_matches d sid
          = Inr (map s_session_id
              (filter (\<lambda>s. starts_with_ci sid (c_string (s_session_id s))) (sessions d))))"
proof (intro conjI impI)
  assume "list_ex is_surrogate sid"
  then show "topics_command d sid = Raised UnicodeEncodeError"
    by (rule topics_command_surrogate)
next
  assume "\<not> list_ex is_surrogate sid \<and> length sid < 36"
  then show "prefix_matches d sid
          = Inr (map s_session_id
              (filter (\<lambda>s. pattern_compare (c_string (sid @ [percent]))
                              (c_string (s_session_id s))) (sessions d)))"
    by (simp add: prefix_matches_short)
next
  assume "\<not> list_ex is_surrogate sid \<and> length sid < 36" and "prefix_matches d sid = Inr []"
  then show "resolve_session_id d sid = Inr None"
    by (simp add: resolve_session_id_def)
next
  assume "\<not> list_ex is_surrogate sid \<and> length sid < 36" and "prefix_matches d sid = Inr []"
  then show "topics_command d sid = NoSessionFound sid"
    by (simp add: topics_command_def resolve_session_id_def)
next
  assume "\<not> list_ex is_surrogate sid \<and> length sid < 36"
    and "prefix_matches d sid = Inr (full # others)"
  then show "resolve_session_id d sid = Inr (Some full)"
    by (simp add: resolve_session_id_def)
next
  assume "\<not> list_ex is_surrogate sid \<and> length sid < 36"
    and "prefix_matches d sid = Inr (full # others)"
    and f: "\<not> list_ex is_surrogate full"
  then have "resolve_session_id d sid = Inr (Some full)"
    by (simp add: resolve_session_id_def)
  then show "topics_command d sid
                    = (case topics d full of
                         [] \<Rightarrow> NoTopics full
                       | e # es \<Rightarrow> Timeline full (fst (print_timeline (e # es)))
                                     (snd (print_timeline (e # es))))"
    using f by (rule topics_command_resolved)
next
  assume "\<not> list_ex is_surrogate sid \<and> 36 \<le> length sid"
  then show "resolve_session_id d sid = Inr (Some sid)"
    by (simp add: resolve_session_id_def)
next
  assume a: "\<not> list_ex is_surrogate sid \<and> 36 \<le> length sid"
  then have "resolve_session_id d sid = Inr (Some sid)"
    by (simp add: resolve_session_id_def)
  then show "topics_command d sid
            = (case topics d sid of
                 [] \<Rightarrow> NoTopics sid
               | e # es \<Rightarrow> Timeline sid (fst (print_timeline (e # es)))
                             (snd (print_timeline (e # es))))"
    using a by (simp add: topics_command_resolved)
next
  show "print_timeline entries
       = (takeWhile (\<lambda>t. source t \<noteq> None) entries,
          if list_all (\<lambda>t. source t \<noteq> None) entries then None else Some TypeError)"
    by (rule print_timeline_takeWhile)
next
  assume a: "\<not> list_ex is_surrogate sid \<and> length sid < 36
        \<and> percent \<notin> set sid \<and> underscore \<notin> set sid \<and> 0 \<notin> set sid"
  then have "0 \<notin> set (sid @ [percent])" by (simp add: percent_def)
  then have "c_string (sid @ [percent]) = sid @ [percent]" by (rule c_string_no_nul)
  with a show "prefix_matches d sid
          = Inr (map s_session_id
              (filter (\<lambda>s. starts_with_ci sid (c_string (s_session_id s))) (sessions d)))"
    by (simp add: prefix_matches_short pattern_compare_literal_prefix)
qed

theorem C3_prefix_resolution_witness:
  "\<not> list_ex is_surrogate (str ''AB'') \<and> length (str ''AB'') < 36
   \<and> prefix_matches two_sessions (str ''AB'') = Inr [str ''ab12'', str ''ab34'']
   \<and> \<not> list_ex is_surrogate (str ''ab12'')
   \<and> resolve_session_id two_sessions (str ''AB'') = Inr (Some (str ''ab12''))
   \<and> topics_command two_sessions (str ''AB'') = NoTopics (str ''ab12'')
   \<and> percent \<notin> set (str ''AB'') \<and> underscore \<notin> set (str ''AB'') \<and> 0 \<notin> set (str ''AB'')
   \<and> map s_session_id (filter (\<lambda>s. starts_with_ci (str ''AB'') (c_string (s_session_id s)))
        (sessions two_sessions)) = [str ''ab12'', str ''ab34'']
   \<and> \<not> list_ex is_surrogate (str ''zz'') \<and> length (str ''zz'') < 36
   \<and> prefix_matches two_sessions (str ''zz'') = Inr []
   \<and> resolve_session_id two_sessions (str ''zz'') = Inr None
   \<and> topics_command two_sessions (str ''zz'') = NoSessionFound (str ''zz'')
   \<and> \<not> list_ex is_surrogate (replicate 36 (120::nat)) \<and> 36 \<le> length (replicate 36 (120::nat))
   \<and> resolve_session_id two_sessions (replicate 36 120) = Inr (Some (replicate 36 120))
   \<and> list_ex is_surrogate lone_surrogate
   \<and> topics_command two_sessions lone_surrogate = Raised UnicodeEncodeError
   \<and> topics_command three_days (str ''s2'')
       = Timeline (str ''s2'')
           [\<lparr>topic = Some (str ''early''), captured_at = Some (str ''09:15''),
             exchange_number = None, source = Some (str ''hook'')\<rparr>,
            \<lparr>topic = Some (str ''late''), captured_at = Some (str ''10:30''),
             exchange_number = None, source = Some (str ''hook'')\<rparr>] None"
proof -
  have l: "\<not> list_ex is_surrogate (str ''AB'') \<and> length (str ''AB'') < 36"
    by (simp add: str_def is_surrogate_def)
  have l1: "\<not> list_ex is_surrogate (str ''ab12'')"
    by (simp add: str_def is_surrogate_def)
  have w: "percent \<notin> set (str ''AB'') \<and> underscore \<notin> set (str ''AB'') \<and> 0 \<notin> set (str ''AB'')"
    by (simp add: str_def percent_def underscore_def)
  have t: "topics two_sessions (str ''ab12'') = []"
    by (simp add: topics_def two_sessions_def mk_db_def order_by_def)
  have lz: "\<not> list_ex is_surrogate (str ''zz'') \<and> length (str ''zz'') < 36"
    by (simp add: str_def is_surrogate_def)
  have ll: "\<not> list_ex is_surrogate (replicate 36 (120::nat)) \<and> 36 \<le> length (replicate 36 (120::nat))"
    by (simp add: list_ex_iff is_surrogate_def)
  have ls: "list_ex is_surrogate lone_surrogate"
    by (simp add: lone_surrogate_def is_surrogate_def)
  have l2: "\<not> list_ex is_surrogate (str ''s2'') \<and> length (str ''s2'') < 36"
    by (simp add: str_def is_surrogate_def)
  note a = C3_prefix_resolution [of "str ''AB''" two_sessions "str ''ab12''" "[str ''ab34'']" "[]"]
  note b = C3_prefix_resolution [of "str ''zz''" two_sessions "[]" "[]" "[]"]
  note c = C3_prefix_resolution [of "replicate 36 120" two_sessions "[]" "[]" "[]"]
  note e = C3_prefix_resolution [of lone_surrogate two_sessions "[]" "[]" "[]"]
  note g = C3_prefix_resolution [of "str ''s2''" three_days "str ''s2''" "[]"
      "topics three_days (str ''s2'')"]
  from a l l1 two_matches have r: "resolve_session_id two_sessions (str ''AB'') = Inr (Some (str ''ab12''))"
    and tc0: "topics_command two_sessions (str ''AB'')
       = (case topics two_sessions (str ''ab12'') of
            [] \<Rightarrow> NoTopics (str ''ab12'')
          | e # es \<Rightarrow> Timeline (str ''ab12'') (fst (print_timeline (e # es)))
                        (snd (print_timeline (e # es))))"
    by blast+
  from tc0 t have tc: "topics_command two_sessions (str ''AB'') = NoTopics (str ''ab12'')"
    by simp
  from a l w have "prefix_matches two_sessions (str ''AB'')
      = Inr (map s_session_id (filter (\<lambda>s. starts_with_ci (str ''AB'') (c_string (s_session_id s)))
          (sessions two_sessions)))"
    by blast
  then have f: "map s_session_id (filter (\<lambda>s. starts_with_ci (str ''AB'') (c_string (s_session_id s)))
        (sessions two_sessions)) = [str ''ab12'', str ''ab34'']"
    unfolding two_matches by simp
  from b lz no_matches have rz: "resolve_session_id two_sessions (str ''zz'') = Inr None"
    and tz: "topics_command two_sessions (str ''zz'') = NoSessionFound (str ''zz'')"
    by blast+
  from c ll have rl: "resolve_session_id two_sessions (replicate 36 120) = Inr (Some (replicate 36 120))"
    by blast
  from e ls have te: "topics_command two_sessions lone_surrogate = Raised UnicodeEncodeError"
    by blast
  from g l2 day_matches have tg0: "topics_command three_days (str ''s2'')
       = (case topics three_days (str ''s2'') of
            [] \<Rightarrow> NoTopics (str ''s2'')
          | e # es \<Rightarrow> Timeline (str ''s2'') (fst (print_timeline (e # es)))
                        (snd (print_timeline (e # es))))"
    by blast
  have tg: "topics_command three_days (str ''s2'')
       = Timeline (str ''s2'')
           [\<lparr>topic = Some (str ''early''), captured_at = Some (str ''09:15''),
             exchange_number = None, source = Some (str ''hook'')\<rparr>,
            \<lparr>topic = Some (str ''late''), captured_at = Some (str ''10:30''),
             exchange_number = None, source = Some (str ''hook'')\<rparr>] None"
    unfolding tg0 day_topics by simp
  from l l1 two_matches r tc w f lz no_matches rz tz ll rl ls te tg show ?thesis by blast
qed

text \<open>
  C3 as stated fails. The prefix \<open>ab\<close> matches two sessions, and the command goes on
  with the first of them, reporting no ambiguity. And an argument that is a lone
  surrogate ends the command with an exception, not with an outcome it reports.
\<close>

theorem C3_ambiguous_prefix_counterexample:
  "prefix_matches two_sessions (str ''ab'') = Inr [str ''ab12'', str ''ab34'']
   \<and> resolve_session_id two_sessions (str ''ab'') = Inr (Some (str ''ab12''))
   \<and> topics_command two_sessions (str ''ab'') = NoTopics (str ''ab12'')
   \<and> length lone_surrogate < 36
   \<and> topics_command two_sessions lone_surrogate = Raised UnicodeEncodeError"
proof -
  have m: "prefix_matches two_sessions (str ''ab'') = Inr [str ''ab12'', str ''ab34'']"
    by (simp add: prefix_matches_def two_sessions_def mk_db_def mk_session_def str_def like_eval)
  have r: "resolve_session_id two_sessions (str ''ab'') = Inr (Some (str ''ab12''))"
    by (simp add: resolve_session_id_def m) (simp add: str_def)
  have "topics two_sessions (str ''ab12'') = []"
    by (simp add: topics_def two_sessions_def mk_db_def order_by_def)
  then have t: "topics_command two_sessions (str ''ab'') = NoTopics (str ''ab12'')"
    unfolding topics_command_def r by (simp add: bind_text_def str_def is_surrogate_def)
  have s: "topics_command two_sessions lone_surrogate = Raised UnicodeEncodeError"
    by (rule topics_command_surrogate) (simp add: lone_surrogate_def is_surrogate_def)
  from m r t s show ?thesis by (simp add: lone_surrogate_def)
qed

section \<open>The claim about the project filter\<close>

text \<open>
  The test of the project criterion on a row: one of the two labels is \<open>LIKE\<close> the
  pattern \<open>%x%\<close>.
\<close>

definition project_like :: "pystr \<Rightarrow> session \<Rightarrow> bool" where
  "project_like x s \<longleftrightarrow>
     sql_like (s_project_name s) (contains_pattern x) = Inr (Some True)
     \<or> sql_like (s_project s) (contains_pattern x) = Inr (Some True)"

text \<open>Neither project label of the row is \<open>NULL\<close>.\<close>

definition project_labels_present :: "session \<Rightarrow> bool" where
  "project_labels_present s \<longleftrightarrow> s_project_name s \<noteq> None \<and> s_project s \<noteq> None"

text \<open>
  In the spec's words: \<open>s\<close> contains \<open>x\<close>, upper and lower case ASCII letters being
  equal.
\<close>

definition contains_ci :: "pystr \<Rightarrow> pystr \<Rightarrow> bool" where
  "contains_ci x s \<longleftrightarrow> list_ex (\<lambda>i. starts_with_ci x (drop i s)) [0..<Suc (length s)]"

text \<open>Three sessions with both project labels, and the store that holds them.\<close>

definition alpha_session :: session where
  "alpha_session =
     mk_session (str ''s1'') (Some (str ''/alpha'')) (Some (str ''Alpha'')) (Some (str ''2024-05-02''))"

definition beta_session :: session where
  "beta_session =
     mk_session (str ''s2'') (Some (str ''/beta'')) (Some (str ''beta'')) (Some (str ''2024-05-03''))"

definition gamma_session :: session where
  "gamma_session =
     mk_session (str ''s3'') (Some (str ''/ALPHA2'')) (Some (str ''Gamma'')) (Some (str ''2024-05-01''))"

definition projects_db :: db where
  "projects_db = mk_db [alpha_session, beta_session, gamma_session] []"

text \<open>A substring of 50000 letters \<open>a\<close>, and the substring \<open>a\<close>, \<open>NUL\<close>, \<open>z\<close>.\<close>

definition long_substring :: pystr where
  "long_substring = replicate 50000 97"

definition nul_substring :: pystr where
  "nul_substring = [97, 0, 122]"

text \<open>A store of one session whose two labels are \<open>b\<close>, \<open>NUL\<close>, \<open>alp\<close>.\<close>

definition nul_label_db :: db where
  "nul_label_db =
     mk_db [mk_session (str ''s4'') (Some ([98, 0] @ str ''alp'')) (Some ([98, 0] @ str ''alp''))
              None] []"

lemma sql_like_ok:
  "utf8_bytes pat \<le> max_like_pattern_length \<Longrightarrow>
   sql_like v pat = Inr (map_option (\<lambda>t. pattern_compare (c_string pat) (c_string t)) v)"
  by (cases v) (simp_all add: sql_like_def like_match_def)

lemma sql_like_too_long:
  "max_like_pattern_length < utf8_bytes pat \<Longrightarrow> sql_like v pat = Inl OperationalError"
  by (cases v) (simp_all add: sql_like_def like_match_def)

lemma sql_or_True: "sql_or a b = Some True \<longleftrightarrow> a = Some True \<or> b = Some True"
  by (cases "(a, b)" rule: sql_or.cases) simp_all

lemma sql_not_or_True:
  "sql_not (sql_or a b) = Some True \<longleftrightarrow> a = Some False \<and> b = Some False"
  by (cases "(a, b)" rule: sql_or.cases) simp_all

lemma eval_where_project:
  assumes "utf8_bytes (contains_pattern x) \<le> max_like_pattern_length"
  shows "eval_where d s [ProjectLike (contains_pattern x) (contains_pattern x)]
         = Inr (project_like x s)"
  by (cases "s_project_name s"; cases "s_project s")
    (auto simp add: like_or_def project_like_def sql_like_ok [OF assms] sql_or_True)

lemma eval_where_not_project:
  assumes "utf8_bytes (contains_pattern x) \<le> max_like_pattern_length"
  shows "eval_where d s [NotProjectLike (contains_pattern x) (contains_pattern x)]
         = Inr (project_labels_present s \<and> \<not> project_like x s)"
  by (cases "s_project_name s"; cases "s_project s")
    (auto simp add: like_or_def project_like_def project_labels_present_def
      sql_like_ok [OF assms] sql_not_or_True)

lemma eval_where_too_long:
  assumes "max_like_pattern_length < utf8_bytes p"
  shows "eval_where d s [ProjectLike p p] = Inl OperationalError"
    and "eval_where d s [NotProjectLike p p] = Inl OperationalError"
  by (simp_all add: like_or_def sql_like_too_long [OF assms])

lemma scan_sessions_filter:
  "(\<And>s. eval_where d s conds = Inr (P s)) \<Longrightarrow> scan_sessions d conds ss = Inr (filter P ss)"
  by (induction ss) simp_all

lemma scan_sessions_error:
  "(\<And>s. eval_where d s conds = Inl e) \<Longrightarrow> ss \<noteq> [] \<Longrightarrow> scan_sessions d conds ss = Inl e"
  by (cases ss) simp_all

lemma select_sessions_filter:
  "(\<And>s. eval_where d s conds = Inr (P s)) \<Longrightarrow>
   select_sessions d conds n
     = Inr (sql_limit n (order_by_desc (tie_order d) s_start_time (filter P (sessions d))))"
  by (simp add: select_sessions_def scan_sessions_filter sql_limit_zero)

lemma word_of_int_nonzero:
  assumes "- (2 ^ 63) \<le> n" "n < 2 ^ 63" "n \<noteq> 0"
  shows "(word_of_int n :: 64 word) \<noteq> 0"
proof
  assume "(word_of_int n :: 64 word) = 0"
  then have "sint (word_of_int n :: 64 word) = 0" by simp
  with sint_int64 [OF assms(1) assms(2)] assms(3) show False by simp
qed

lemma contains_pattern_surrogate:
  "list_ex is_surrogate (contains_pattern x) \<longleftrightarrow> list_ex is_surrogate x"
  by (simp add: contains_pattern_def percent_no_surrogate)

lemma conditions_project:
  "x \<noteq> [] \<Longrightarrow> find_conditions clock (no_criteria\<lparr>project := Some x\<rparr>)
     = Inr [ProjectLike (contains_pattern x) (contains_pattern x)]"
  by (simp add: find_conditions_def no_criteria_def)

lemma conditions_exclude_project:
  "x \<noteq> [] \<Longrightarrow> find_conditions clock (no_criteria\<lparr>exclude_project := Some x\<rparr>)
     = Inr [NotProjectLike (contains_pattern x) (contains_pattern x)]"
  by (simp add: find_conditions_def no_criteria_def)

lemma bind_project:
  assumes "\<not> list_ex is_surrogate x"
  shows "bind_params [ProjectLike (contains_pattern x) (contains_pattern x)] limit = bind_int limit"
    and "bind_params [NotProjectLike (contains_pattern x) (contains_pattern x)] limit
         = bind_int limit"
  using assms by (simp_all add: bind_params_def bind_text_def contains_pattern_surrogate)

lemma bind_project_surrogate:
  assumes "list_ex is_surrogate x"
  shows "bind_params [ProjectLike (contains_pattern x) (contains_pattern x)] limit
         = Inl UnicodeEncodeError"
    and "bind_params [NotProjectLike (contains_pattern x) (contains_pattern x)] limit
         = Inl UnicodeEncodeError"
  using assms by (simp_all add: bind_params_def bind_text_def contains_pattern_surrogate)

lemma find_project:
  assumes "x \<noteq> []" and "\<not> list_ex is_surrogate x"
    and "utf8_bytes (contains_pattern x) \<le> max_like_pattern_length"
    and "- (2 ^ 63) \<le> limit" and "limit < 2 ^ 63"
  shows "find_sessions clock d (no_criteria\<lparr>project := Some x\<rparr>) limit
         = Inr (map (enrich d) (sql_limit (word_of_int limit)
             (order_by_desc (tie_order d) s_start_time (filter (project_like x) (sessions d)))))"
  by (simp add: find_sessions_def conditions_project [OF assms(1)] bind_project [OF assms(2)]
      bind_int_fits [OF assms(4) assms(5)]
      select_sessions_filter [where P = "project_like x", OF eval_where_project [OF assms(3)]])

lemma find_exclude_project:
  assumes "x \<noteq> []" and "\<not> list_ex is_surrogate x"
    and "utf8_bytes (contains_pattern x) \<le> max_like_pattern_length"
    and "- (2 ^ 63) \<le> limit" and "limit < 2 ^ 63"
  shows "find_sessions clock d (no_criteria\<lparr>exclude_project := Some x\<rparr>) limit
         = Inr (map (enrich d) (sql_limit (word_of_int limit)
             (order_by_desc (tie_order d) s_start_time
               (filter (\<lambda>s. project_labels_present s \<and> \<not> project_like x s) (sessions d)))))"
  by (simp add: find_sessions_def conditions_exclude_project [OF assms(1)]
      bind_project [OF assms(2)] bind_int_fits [OF assms(4) assms(5)]
      select_sessions_filter [where P = "\<lambda>s. project_labels_present s \<and> \<not> project_like x s",
        OF eval_where_not_project [OF assms(3)]])

lemma find_project_surrogate:
  assumes "list_ex is_surrogate x"
  shows "find_sessions clock d (no_criteria\<lparr>project := Some x\<rparr>) limit = Inl UnicodeEncodeError"
    and "find_sessions clock d (no_criteria\<lparr>exclude_project := Some x\<rparr>) limit
         = Inl UnicodeEncodeError"
proof -
  from assms have x: "x \<noteq> []" by auto
  show "find_sessions clock d (no_criteria\<lparr>project := Some x\<rparr>) limit = Inl UnicodeEncodeError"
    by (simp add: find_sessions_def conditions_project [OF x] bind_project_surrogate [OF assms])
  show "find_sessions clock d (no_criteria\<lparr>exclude_project := Some x\<rparr>) limit
         = Inl UnicodeEncodeError"
    by (simp add: find_sessions_def conditions_exclude_project [OF x]
        bind_project_surrogate [OF assms])
qed

lemma find_project_overflow:
  assumes "x \<noteq> []" and "\<not> list_ex is_surrogate x"
    and "limit < - (2 ^ 63) \<or> 2 ^ 63 \<le> limit"
  shows "find_sessions clock d (no_criteria\<lparr>project := Some x\<rparr>) limit = Inl OverflowError"
    and "find_sessions clock d (no_criteria\<lparr>exclude_project := Some x\<rparr>) limit
         = Inl OverflowError"
  by (simp_all add: find_sessions_def conditions_project [OF assms(1)]
      conditions_exclude_project [OF assms(1)] bind_project [OF assms(2)]
      bind_int_overflow [OF assms(3)])

lemma find_project_too_long:
  assumes "x \<noteq> []" and "\<not> list_ex is_surrogate x"
    and "max_like_pattern_length < utf8_bytes (contains_pattern x)"
    and "- (2 ^ 63) \<le> limit" and "limit < 2 ^ 63" and "limit \<noteq> 0" and "sessions d \<noteq> []"
  shows "find_sessions clock d (no_criteria\<lparr>project := Some x\<rparr>) limit = Inl OperationalError"
    and "find_sessions clock d (no_criteria\<lparr>exclude_project := Some x\<rparr>) limit
         = Inl OperationalError"
proof -
  note n = word_of_int_nonzero [OF assms(4) assms(5) assms(6)]
  have a: "scan_sessions d [ProjectLike (contains_pattern x) (contains_pattern x)] (sessions d)
           = Inl OperationalError"
    by (rule scan_sessions_error [OF eval_where_too_long(1) [OF assms(3)] assms(7)])
  have b: "scan_sessions d [NotProjectLike (contains_pattern x) (contains_pattern x)] (sessions d)
           = Inl OperationalError"
    by (rule scan_sessions_error [OF eval_where_too_long(2) [OF assms(3)] assms(7)])
  show "find_sessions clock d (no_criteria\<lparr>project := Some x\<rparr>) limit = Inl OperationalError"
    by (simp add: find_sessions_def conditions_project [OF assms(1)] bind_project [OF assms(2)]
        bind_int_fits [OF assms(4) assms(5)] select_sessions_def n a)
  show "find_sessions clock d (no_criteria\<lparr>exclude_project := Some x\<rparr>) limit
         = Inl OperationalError"
    by (simp add: find_sessions_def conditions_exclude_project [OF assms(1)]
        bind_project [OF assms(2)] bind_int_fits [OF assms(4) assms(5)] select_sessions_def n b)
qed

lemma sql_limit_all:
  "- (2 ^ 63) \<le> limit \<Longrightarrow> limit < 2 ^ 63 \<Longrightarrow> limit < 0 \<or> int (length rows) \<le> limit \<Longrightarrow>
   sql_limit (word_of_int limit) rows = rows"
  by (auto simp: sql_limit_def sint_int64)

lemma pattern_compare_contains:
  assumes "percent \<notin> set x" "underscore \<notin> set x"
  shows "pattern_compare (contains_pattern x) s \<longleftrightarrow> contains_ci x s"
proof -
  have step: "pattern_compare (percent # x @ [percent]) s
              \<longleftrightarrow> (\<exists>i \<le> length s. starts_with_ci x (drop i s))" for s
  proof (induction s)
    case Nil
    show ?case using pattern_compare_literal_prefix [OF assms, of "[]"]
      by (cases "x @ [percent]") (simp_all add: percent_def)
  next
    case (Cons c cs)
    have "pattern_compare (percent # x @ [percent]) (c # cs)
          \<longleftrightarrow> pattern_compare (x @ [percent]) (c # cs)
              \<or> pattern_compare (percent # x @ [percent]) cs"
      by simp
    also have "\<dots> \<longleftrightarrow> starts_with_ci x (c # cs) \<or> (\<exists>i \<le> length cs. starts_with_ci x (drop i cs))"
      using pattern_compare_literal_prefix [OF assms] Cons.IH by simp
    also have "\<dots> \<longleftrightarrow> (\<exists>i \<le> length (c # cs). starts_with_ci x (drop i (c # cs)))"
    proof
      assume "starts_with_ci x (c # cs) \<or> (\<exists>i \<le> length cs. starts_with_ci x (drop i cs))"
      then show "\<exists>i \<le> length (c # cs). starts_with_ci x (drop i (c # cs))"
      proof
        assume "starts_with_ci x (c # cs)"
        then have "0 \<le> length (c # cs) \<and> starts_with_ci x (drop 0 (c # cs))" by simp
        then show ?thesis by blast
      next
        assume "\<exists>i \<le> length cs. starts_with_ci x (drop i cs)"
        then obtain i where "i \<le> length cs" "starts_with_ci x (drop i cs)" by blast
        then have "Suc i \<le> length (c # cs) \<and> starts_with_ci x (drop (Suc i) (c # cs))" by simp
        then show ?thesis by blast
      qed
    next
      assume "\<exists>i \<le> length (c # cs). starts_with_ci x (drop i (c # cs))"
      then obtain i where i: "i \<le> length (c # cs)" "starts_with_ci x (drop i (c # cs))" by blast
      show "starts_with_ci x (c # cs) \<or> (\<exists>i \<le> length cs. starts_with_ci x (drop i cs))"
      proof (cases i)
        case 0
        with i show ?thesis by simp
      next
        case (Suc j)
        with i have "j \<le> length cs \<and> starts_with_ci x (drop j cs)" by simp
        then show ?thesis by blast
      qed
    qed
    finally show ?case .
  qed
  have "contains_ci x s \<longleftrightarrow> (\<exists>i \<le> length s. starts_with_ci x (drop i s))"
    by (auto simp: contains_ci_def list_ex_iff less_Suc_eq_le simp del: upt_Suc)
  with step show ?thesis by (simp add: contains_pattern_def)
qed

lemma project_like_contains:
  assumes "percent \<notin> set x" "underscore \<notin> set x" "0 \<notin> set x"
    and "utf8_bytes (contains_pattern x) \<le> max_like_pattern_length"
  shows "project_like x s \<longleftrightarrow>
           (case s_project_name s of None \<Rightarrow> False | Some v \<Rightarrow> contains_ci x (c_string v))
           \<or> (case s_project s of None \<Rightarrow> False | Some v \<Rightarrow> contains_ci x (c_string v))"
proof -
  from assms(3) have "0 \<notin> set (contains_pattern x)"
    by (simp add: contains_pattern_def percent_def)
  then have c: "c_string (contains_pattern x) = contains_pattern x" by (rule c_string_no_nul)
  show ?thesis
    by (simp add: project_like_def sql_like_ok [OF assms(4)] c
        pattern_compare_contains [OF assms(1) assms(2)] split: option.splits)
qed

lemma r_session_id_enrich: "r_session_id (enrich d s) = s_session_id s"
  by (simp add: enrich_def)

lemma length_filter_partition:
  "length (filter P xs) + length (filter (\<lambda>x. \<not> P x) xs) = length xs"
  by (induction xs) auto

lemma filter_present:
  "list_all project_labels_present ss \<Longrightarrow>
   filter (\<lambda>s. project_labels_present s \<and> \<not> project_like x s) ss = filter (\<lambda>s. \<not> project_like x s) ss"
  by (induction ss) auto

text \<open>
  C2, as the code has it. Take a substring \<open>x\<close> that is not empty, has no lone
  surrogate and gives a pattern \<open>%x%\<close> of at most 50000 bytes, and a limit that fits a
  signed 64-bit integer. Then \<open>find(project=x)\<close> returns the sessions of which one of
  the two project labels is \<open>LIKE %x%\<close>, and \<open>find(exclude_project=x)\<close> those of
  which both labels are present and neither is. When moreover every session has both
  labels and the limit leaves nothing out, the two results partition the sessions: as
  multisets they add up to all rows, and with distinct session identifiers no
  identifier is in both and every identifier is in one. For \<open>x\<close> without \<open>%\<close>,
  \<open>_\<close> and \<open>NUL\<close> the \<open>LIKE\<close> test is containment in the label, read up to its
  first \<open>NUL\<close>, up to the case of ASCII letters. A lone surrogate in \<open>x\<close> makes both
  calls raise \<open>UnicodeEncodeError\<close>; otherwise a limit outside 64 bits makes both raise
  \<open>OverflowError\<close>; otherwise a longer pattern makes both raise \<open>OperationalError\<close>
  as soon as the statement reads a row.
\<close>

theorem C2_project_partition:
  "(x \<noteq> [] \<and> \<not> list_ex is_surrogate x
      \<and> utf8_bytes (contains_pattern x) \<le> max_like_pattern_length
      \<and> - (2 ^ 63) \<le> limit \<and> limit < 2 ^ 63 \<longrightarrow>
      find_sessions clock d (no_criteria\<lparr>project := Some x\<rparr>) limit
        = Inr (map (enrich d) (sql_limit (word_of_int limit)
            (order_by_desc (tie_order d) s_start_time (filter (project_like x) (sessions d)))))
      \<and> find_sessions clock d (no_criteria\<lparr>exclude_project := Some x\<rparr>) limit
        = Inr (map (enrich d) (sql_limit (word_of_int limit)
            (order_by_desc (tie_order d) s_start_time
              (filter (\<lambda>s. project_labels_present s \<and> \<not> project_like x s) (sessions d))))))
   \<and> (x \<noteq> [] \<and> \<not> list_ex is_surrogate x
        \<and> utf8_bytes (contains_pattern x) \<le> max_like_pattern_length
        \<and> - (2 ^ 63) \<le> limit \<and> limit < 2 ^ 63
        \<and> (limit < 0 \<or> int (length (sessions d)) \<le> limit)
        \<and> list_all project_labels_present (sessions d)
        \<and> find_sessions clock d (no_criteria\<lparr>project := Some x\<rparr>) limit = Inr matching
        \<and> find_sessions clock d (no_criteria\<lparr>exclude_project := Some x\<rparr>) limit = Inr others
      \<longrightarrow> mset matching + mset others = mset (map (enrich d) (sessions d))
          \<and> length matching + length others = length (sessions d)
          \<and> (distinct (map s_session_id (sessions d)) \<longrightarrow>
                set (map r_session_id matching) \<inter> set (map r_session_id others) = {}
                \<and> set (map r_session_id matching) \<union> set (map r_session_id others)
                    = set (map s_session_id (sessions d))))
   \<and> (percent \<notin> set x \<and> underscore \<notin> set x \<and> 0 \<notin> set x
        \<and> utf8_bytes (contains_pattern x) \<le> max_like_pattern_length \<longrightarrow>
        (project_like x s \<longleftrightarrow>
           (case s_project_name s of None \<Rightarrow> False | Some v \<Rightarrow> contains_ci x (c_string v))
           \<or> (case s_project s of None \<Rightarrow> False | Some v \<Rightarrow> contains_ci x (c_string v))))
   \<and> (list_ex is_surrogate x \<longrightarrow>
        find_sessions clock d (no_criteria\<lparr>project := Some x\<rparr>) limit = Inl UnicodeEncodeError
        \<and> find_sessions clock d (no_criteria\<lparr>exclude_project := Some x\<rparr>) limit
            = Inl UnicodeEncodeError)
   \<and> (x \<noteq> [] \<and> \<not> list_ex is_surrogate x \<and> (limit < - (2 ^ 63) \<or> 2 ^ 63 \<le> limit) \<longrightarrow>
        find_sessions clock d (no_criteria\<lparr>project := Some x\<rparr>) limit = Inl OverflowError
        \<and> find_sessions clock d (no_criteria\<lparr>exclude_project := Some x\<rparr>) limit
            = Inl OverflowError)
   \<and> (x \<noteq> [] \<and> \<not> list_ex is_surrogate x
        \<and> max_like_pattern_length < utf8_bytes (contains_pattern x)
        \<and> - (2 ^ 63) \<le> limit \<and> limit < 2 ^ 63 \<and> limit \<noteq> 0 \<and> sessions d \<noteq> [] \<longrightarrow>
        find_sessions clock d (no_criteria\<lparr>project := Some x\<rparr>) limit = Inl OperationalError
        \<and> find_sessions clock d (no_criteria\<lparr>exclude_project := Some x\<rparr>) limit
            = Inl OperationalError)"
proof (intro conjI impI)
  assume "x \<noteq> [] \<and> \<not> list_ex is_surrogate x
      \<and> utf8_bytes (contains_pattern x) \<le> max_like_pattern_length
      \<and> - (2 ^ 63) \<le> limit \<and> limit < 2 ^ 63"
  then show "find_sessions clock d (no_criteria\<lparr>project := Some x\<rparr>) limit
        = Inr (map (enrich d) (sql_limit (word_of_int limit)
            (order_by_desc (tie_order d) s_start_time (filter (project_like x) (sessions d)))))"
    by (simp add: find_project)
next
  assume "x \<noteq> [] \<and> \<not> list_ex is_surrogate x
      \<and> utf8_bytes (contains_pattern x) \<le> max_like_pattern_length
      \<and> - (2 ^ 63) \<le> limit \<and> limit < 2 ^ 63"
  then show "find_sessions clock d (no_criteria\<lparr>exclude_project := Some x\<rparr>) limit
        = Inr (map (enrich d) (sql_limit (word_of_int limit)
            (order_by_desc (tie_order d) s_start_time
              (filter (\<lambda>s. project_labels_present s \<and> \<not> project_like x s) (sessions d)))))"
    by (simp add: find_exclude_project)
next
  assume "percent \<notin> set x \<and> underscore \<notin> set x \<and> 0 \<notin> set x
        \<and> utf8_bytes (contains_pattern x) \<le> max_like_pattern_length"
  then show "project_like x s \<longleftrightarrow>
           (case s_project_name s of None \<Rightarrow> False | Some v \<Rightarrow> contains_ci x (c_string v))
           \<or> (case s_project s of None \<Rightarrow> False | Some v \<Rightarrow> contains_ci x (c_string v))"
    by (simp add: project_like_contains)
next
  assume "list_ex is_surrogate x"
  then show "find_sessions clock d (no_criteria\<lparr>project := Some x\<rparr>) limit
             = Inl UnicodeEncodeError"
    by (rule find_project_surrogate)
next
  assume "list_ex is_surrogate x"
  then show "find_sessions clock d (no_criteria\<lparr>exclude_project := Some x\<rparr>) limit
            = Inl UnicodeEncodeError"
    by (rule find_project_surrogate)
next
  assume "x \<noteq> [] \<and> \<not> list_ex is_surrogate x \<and> (limit < - (2 ^ 63) \<or> 2 ^ 63 \<le> limit)"
  then show "find_sessions clock d (no_criteria\<lparr>project := Some x\<rparr>) limit = Inl OverflowError"
    by (simp add: find_project_overflow)
next
  assume "x \<noteq> [] \<and> \<not> list_ex is_surrogate x \<and> (limit < - (2 ^ 63) \<or> 2 ^ 63 \<le> limit)"
  then show "find_sessions clock d (no_criteria\<lparr>exclude_project := Some x\<rparr>) limit
             = Inl OverflowError"
    by (simp add: find_project_overflow)
next
  assume "x \<noteq> [] \<and> \<not> list_ex is_surrogate x
        \<and> max_like_pattern_length < utf8_bytes (contains_pattern x)
        \<and> - (2 ^ 63) \<le> limit \<and> limit < 2 ^ 63 \<and> limit \<noteq> 0 \<and> sessions d \<noteq> []"
  then show "find_sessions clock d (no_criteria\<lparr>project := Some x\<rparr>) limit
             = Inl OperationalError"
    by (simp add: find_project_too_long)
next
  assume "x \<noteq> [] \<and> \<not> list_ex is_surrogate x
        \<and> max_like_pattern_length < utf8_bytes (contains_pattern x)
        \<and> - (2 ^ 63) \<le> limit \<and> limit < 2 ^ 63 \<and> limit \<noteq> 0 \<and> sessions d \<noteq> []"
  then show "find_sessions clock d (no_criteria\<lparr>exclude_project := Some x\<rparr>) limit
            = Inl OperationalError"
    by (simp add: find_project_too_long)
next
  assume a: "x \<noteq> [] \<and> \<not> list_ex is_surrogate x
        \<and> utf8_bytes (contains_pattern x) \<le> max_like_pattern_length
        \<and> - (2 ^ 63) \<le> limit \<and> limit < 2 ^ 63
        \<and> (limit < 0 \<or> int (length (sessions d)) \<le> limit)
        \<and> list_all project_labels_present (sessions d)
        \<and> find_sessions clock d (no_criteria\<lparr>project := Some x\<rparr>) limit = Inr matching
        \<and> find_sessions clock d (no_criteria\<lparr>exclude_project := Some x\<rparr>) limit = Inr others"
  let ?ss = "sessions d"
  let ?P = "project_like x"
  let ?tie = "tie_order d"
  from a have x: "x \<noteq> []" and u: "\<not> list_ex is_surrogate x"
    and b: "utf8_bytes (contains_pattern x) \<le> max_like_pattern_length"
    and r1: "- (2 ^ 63) \<le> limit" and r2: "limit < 2 ^ 63"
    and lim: "limit < 0 \<or> int (length ?ss) \<le> limit"
    and pres: "list_all project_labels_present ?ss" by simp_all
  have f1: "int (length (filter ?P ?ss)) \<le> int (length ?ss)" by simp
  have f2: "int (length (filter (\<lambda>s. \<not> ?P s) ?ss)) \<le> int (length ?ss)" by simp
  have l1: "limit < 0 \<or> int (length (order_by_desc ?tie s_start_time (filter ?P ?ss))) \<le> limit"
    unfolding length_order_by_desc using lim f1 by linarith
  have l2: "limit < 0
      \<or> int (length (order_by_desc ?tie s_start_time (filter (\<lambda>s. \<not> ?P s) ?ss))) \<le> limit"
    unfolding length_order_by_desc using lim f2 by linarith
  from a have m: "matching = map (enrich d) (order_by_desc ?tie s_start_time (filter ?P ?ss))"
    by (simp add: find_project [OF x u b r1 r2] sql_limit_all [OF r1 r2 l1])
  from a have o: "others
      = map (enrich d) (order_by_desc ?tie s_start_time (filter (\<lambda>s. \<not> ?P s) ?ss))"
    by (simp add: find_exclude_project [OF x u b r1 r2] filter_present [OF pres]
        sql_limit_all [OF r1 r2 l2])
  show "mset matching + mset others = mset (map (enrich d) ?ss)"
  proof -
    have "mset matching + mset others
          = image_mset (enrich d) (filter_mset ?P (mset ?ss))
            + image_mset (enrich d) (filter_mset (\<lambda>s. \<not> ?P s) (mset ?ss))"
      unfolding m o by (simp add: mset_order_by_desc)
    also have "\<dots> = image_mset (enrich d)
                 (filter_mset ?P (mset ?ss) + filter_mset (\<lambda>s. \<not> ?P s) (mset ?ss))"
      by (rule image_mset_union [symmetric])
    also have "filter_mset ?P (mset ?ss) + filter_mset (\<lambda>s. \<not> ?P s) (mset ?ss) = mset ?ss"
      by (rule multiset_partition [symmetric])
    finally show ?thesis by simp
  qed
  show "length matching + length others = length ?ss"
    unfolding m o by (simp add: length_order_by_desc length_filter_partition)
  have sm: "set (map r_session_id matching) = s_session_id ` {s \<in> set ?ss. ?P s}"
    unfolding m by (simp add: comp_def r_session_id_enrich order_by_desc_def)
  have so: "set (map r_session_id others) = s_session_id ` {s \<in> set ?ss. \<not> ?P s}"
    unfolding o by (simp add: comp_def r_session_id_enrich order_by_desc_def)
  {
    assume "distinct (map s_session_id ?ss)"
    then have inj: "inj_on s_session_id (set ?ss)" by (simp add: distinct_map)
    show "set (map r_session_id matching) \<inter> set (map r_session_id others) = {}"
      unfolding sm so using inj by (auto simp: inj_on_def)
    show "set (map r_session_id matching) \<union> set (map r_session_id others)
            = set (map s_session_id ?ss)"
      unfolding sm so by auto
  }
qed

lemmas like_simps = project_like_def contains_pattern_def like_eval

lemmas session_simps = alpha_session_def beta_session_def gamma_session_def mk_session_def str_def

lemma project_like_alp:
  "project_like (str ''alp'') alpha_session"
  "\<not> project_like (str ''alp'') beta_session"
  "project_like (str ''alp'') gamma_session"
  by (simp_all add: like_simps session_simps)

lemma project_like_wild:
  "project_like (str ''a_p'') alpha_session"
  "\<not> project_like (str ''a_p'') beta_session"
  "project_like (str ''a_p'') gamma_session"
  by (simp_all add: like_simps session_simps)

lemma project_like_nul:
  "project_like nul_substring alpha_session"
  "project_like nul_substring beta_session"
  "project_like nul_substring gamma_session"
  by (simp_all add: like_simps session_simps nul_substring_def)

lemma project_like_null_labels: "\<not> project_like x (mk_session sid None None start)"
  by (simp add: project_like_def sql_like_def mk_session_def)

lemma projects_present: "list_all project_labels_present (sessions projects_db)"
  by (simp add: projects_db_def mk_db_def project_labels_present_def session_simps)

lemma projects_distinct: "distinct (map s_session_id (sessions projects_db))"
  by (simp add: projects_db_def mk_db_def session_simps)

lemma order_alpha_gamma:
  "order_by_desc (\<lambda>s. 0) s_start_time [alpha_session, gamma_session]
   = [alpha_session, gamma_session]"
  by (simp add: order_by_desc_def session_simps)

lemma order_projects:
  "order_by_desc (\<lambda>s. 0) s_start_time [alpha_session, beta_session, gamma_session]
   = [beta_session, alpha_session, gamma_session]"
  by (simp add: order_by_desc_def session_simps)

lemma substring_ok:
  "str ''alp'' \<noteq> [] \<and> \<not> list_ex is_surrogate (str ''alp'')
   \<and> utf8_bytes (contains_pattern (str ''alp'')) \<le> max_like_pattern_length"
  "str ''a_p'' \<noteq> [] \<and> \<not> list_ex is_surrogate (str ''a_p'')
   \<and> utf8_bytes (contains_pattern (str ''a_p'')) \<le> max_like_pattern_length"
  "nul_substring \<noteq> [] \<and> \<not> list_ex is_surrogate nul_substring
   \<and> utf8_bytes (contains_pattern nul_substring) \<le> max_like_pattern_length"
  by (simp_all add: str_def nul_substring_def is_surrogate_def contains_pattern_def
      utf8_bytes_def utf8_len_def percent_def max_like_pattern_length_def)

lemma utf8_bytes_replicate: "utf8_bytes (replicate n c) = n * utf8_len c"
  by (induction n) (simp_all add: utf8_bytes_def)

lemma utf8_bytes_contains_pattern: "utf8_bytes (contains_pattern x) = utf8_bytes x + 2"
  by (simp add: contains_pattern_def utf8_bytes_def utf8_len_def percent_def)

lemma long_substring_too_long:
  "long_substring \<noteq> [] \<and> \<not> list_ex is_surrogate long_substring
   \<and> max_like_pattern_length < utf8_bytes (contains_pattern long_substring)"
proof -
  have "utf8_bytes long_substring = 50000 * utf8_len 97"
    unfolding long_substring_def by (rule utf8_bytes_replicate)
  then have b: "utf8_bytes (contains_pattern long_substring) = 50002"
    by (simp add: utf8_bytes_contains_pattern utf8_len_def)
  have "length long_substring = 50000"
    unfolding long_substring_def by (rule length_replicate)
  then have n: "long_substring \<noteq> []" by auto
  have "\<not> is_surrogate c" if "c \<in> set long_substring" for c
  proof -
    from that have "c = 97"
      unfolding long_substring_def by (simp only: in_set_replicate)
    then show ?thesis by (simp add: is_surrogate_def)
  qed
  then have u: "\<not> list_ex is_surrogate long_substring"
    unfolding list_ex_iff by blast
  from b n u show ?thesis by (simp add: max_like_pattern_length_def)
qed

lemma find_alp:
  "find_sessions no_clock projects_db (no_criteria\<lparr>project := Some (str ''alp'')\<rparr>) 20
   = Inr (map (enrich projects_db) [alpha_session, gamma_session])"
  using substring_ok(1)
  by (simp add: find_project projects_db_def mk_db_def project_like_alp order_alpha_gamma
      sql_limit_def)

lemma find_not_alp:
  "find_sessions no_clock projects_db (no_criteria\<lparr>exclude_project := Some (str ''alp'')\<rparr>) 20
   = Inr (map (enrich projects_db) [beta_session])"
  using substring_ok(1) projects_present
  by (simp add: find_exclude_project projects_db_def mk_db_def project_like_alp
      order_by_desc_def sql_limit_def)

theorem C2_project_partition_witness:
  "str ''alp'' \<noteq> [] \<and> \<not> list_ex is_surrogate (str ''alp'')
   \<and> utf8_bytes (contains_pattern (str ''alp'')) \<le> max_like_pattern_length
   \<and> - (2 ^ 63) \<le> (20::int) \<and> (20::int) < 2 ^ 63
   \<and> ((20::int) < 0 \<or> int (length (sessions projects_db)) \<le> 20)
   \<and> list_all project_labels_present (sessions projects_db)
   \<and> distinct (map s_session_id (sessions projects_db))
   \<and> percent \<notin> set (str ''alp'') \<and> underscore \<notin> set (str ''alp'') \<and> 0 \<notin> set (str ''alp'')
   \<and> find_sessions no_clock projects_db (no_criteria\<lparr>project := Some (str ''alp'')\<rparr>) 20
       = Inr (map (enrich projects_db) [alpha_session, gamma_session])
   \<and> find_sessions no_clock projects_db (no_criteria\<lparr>exclude_project := Some (str ''alp'')\<rparr>) 20
       = Inr (map (enrich projects_db) [beta_session])
   \<and> mset (map (enrich projects_db) [alpha_session, gamma_session])
       + mset (map (enrich projects_db) [beta_session])
       = mset (map (enrich projects_db) (sessions projects_db))
   \<and> set (map r_session_id (map (enrich projects_db) [alpha_session, gamma_session]))
       \<inter> set (map r_session_id (map (enrich projects_db) [beta_session])) = {}
   \<and> contains_ci (str ''alp'') (c_string (str ''Alpha''))
   \<and> list_ex is_surrogate lone_surrogate
   \<and> find_sessions no_clock projects_db (no_criteria\<lparr>project := Some lone_surrogate\<rparr>) 20
       = Inl UnicodeEncodeError
   \<and> (2 ^ 63 :: int) \<le> 2 ^ 63
   \<and> find_sessions no_clock projects_db (no_criteria\<lparr>exclude_project := Some (str ''alp'')\<rparr>)
        (2 ^ 63) = Inl OverflowError
   \<and> long_substring \<noteq> [] \<and> \<not> list_ex is_surrogate long_substring
   \<and> max_like_pattern_length < utf8_bytes (contains_pattern long_substring)
   \<and> (20::int) \<noteq> 0 \<and> sessions projects_db \<noteq> []
   \<and> find_sessions no_clock projects_db (no_criteria\<lparr>project := Some long_substring\<rparr>) 20
       = Inl OperationalError"
proof -
  note x = substring_ok(1)
  have r: "- (2 ^ 63) \<le> (20::int) \<and> (20::int) < 2 ^ 63" by simp
  have w: "percent \<notin> set (str ''alp'') \<and> underscore \<notin> set (str ''alp'') \<and> 0 \<notin> set (str ''alp'')"
    by (simp add: str_def percent_def underscore_def)
  have lim: "(20::int) < 0 \<or> int (length (sessions projects_db)) \<le> 20"
    by (simp add: projects_db_def mk_db_def)
  have ls: "list_ex is_surrogate lone_surrogate"
    by (simp add: lone_surrogate_def is_surrogate_def)
  have ne: "(20::int) \<noteq> 0 \<and> sessions projects_db \<noteq> []"
    by (simp add: projects_db_def mk_db_def)
  have big: "(2 ^ 63 :: int) \<le> 2 ^ 63" by simp
  note t = C2_project_partition [where x = "str ''alp''" and limit = 20 and clock = no_clock
      and d = projects_db
      and matching = "map (enrich projects_db) [alpha_session, gamma_session]"
      and others = "map (enrich projects_db) [beta_session]" and s = alpha_session]
  from t x r lim projects_present find_alp find_not_alp
  have p: "mset (map (enrich projects_db) [alpha_session, gamma_session])
       + mset (map (enrich projects_db) [beta_session])
       = mset (map (enrich projects_db) (sessions projects_db))"
    and q: "distinct (map s_session_id (sessions projects_db)) \<longrightarrow>
       set (map r_session_id (map (enrich projects_db) [alpha_session, gamma_session]))
       \<inter> set (map r_session_id (map (enrich projects_db) [beta_session])) = {}"
    by blast+
  from t w x project_like_alp(1)
  have "(case s_project_name alpha_session of
           None \<Rightarrow> False | Some v \<Rightarrow> contains_ci (str ''alp'') (c_string v))
        \<or> (case s_project alpha_session of
           None \<Rightarrow> False | Some v \<Rightarrow> contains_ci (str ''alp'') (c_string v))"
    by blast
  then have c: "contains_ci (str ''alp'') (c_string (str ''Alpha''))"
    by (simp add: alpha_session_def mk_session_def)
       (simp add: contains_ci_def starts_with_ci_def ascii_lower_def str_def c_string_def)
  from C2_project_partition [where x = lone_surrogate and limit = 20 and clock = no_clock
      and d = projects_db and matching = "[]" and others = "[]" and s = alpha_session] ls
  have e: "find_sessions no_clock projects_db (no_criteria\<lparr>project := Some lone_surrogate\<rparr>) 20
       = Inl UnicodeEncodeError"
    by blast
  from C2_project_partition [where x = "str ''alp''" and limit = "2 ^ 63" and clock = no_clock
      and d = projects_db and matching = "[]" and others = "[]" and s = alpha_session] x big
  have o: "find_sessions no_clock projects_db
      (no_criteria\<lparr>exclude_project := Some (str ''alp'')\<rparr>) (2 ^ 63) = Inl OverflowError"
    by blast
  from C2_project_partition [where x = long_substring and limit = 20 and clock = no_clock
      and d = projects_db and matching = "[]" and others = "[]" and s = alpha_session]
    long_substring_too_long r ne
  have l: "find_sessions no_clock projects_db (no_criteria\<lparr>project := Some long_substring\<rparr>) 20
       = Inl OperationalError"
    by blast
  from x r lim w projects_present projects_distinct find_alp find_not_alp p q c ls e big o
    long_substring_too_long ne l
  show ?thesis by blast
qed

text \<open>
  C2 as stated fails, in each of these ways. The empty substring is a falsy criterion,
  so both calls return every session. The characters \<open>_\<close> and \<open>%\<close> in the substring
  are wildcards: \<open>a_p\<close> selects a session neither label of which contains \<open>a_p\<close>.
  The pattern ends at a \<open>NUL\<close>: the substring \<open>a\<close>, \<open>NUL\<close>, \<open>z\<close> selects every
  session with a label that ends in \<open>a\<close>. So does a label: \<open>alp\<close> does not select
  the session whose labels have \<open>alp\<close> after a \<open>NUL\<close>. A session without labels is in neither
  result: of the three sessions of \<open>three_days\<close> both calls return none. And the
  calls raise instead of returning rows for a limit of \<open>2\<^sup>6\<^sup>3\<close>, for a substring
  with a lone surrogate and for a substring of 50000 characters.
\<close>

theorem C2_project_partition_counterexample:
  "find_sessions no_clock projects_db (no_criteria\<lparr>project := Some []\<rparr>) 20
     = Inr (map (enrich projects_db) [beta_session, alpha_session, gamma_session])
   \<and> find_sessions no_clock projects_db (no_criteria\<lparr>exclude_project := Some []\<rparr>) 20
     = Inr (map (enrich projects_db) [beta_session, alpha_session, gamma_session])
   \<and> find_sessions no_clock projects_db (no_criteria\<lparr>project := Some (str ''a_p'')\<rparr>) 20
     = Inr (map (enrich projects_db) [alpha_session, gamma_session])
   \<and> s_project_name alpha_session = Some (str ''Alpha'')
   \<and> s_project alpha_session = Some (str ''/alpha'')
   \<and> \<not> contains_ci (str ''a_p'') (str ''Alpha'')
   \<and> \<not> contains_ci (str ''a_p'') (str ''/alpha'')
   \<and> find_sessions no_clock projects_db (no_criteria\<lparr>project := Some nul_substring\<rparr>) 20
     = Inr (map (enrich projects_db) [beta_session, alpha_session, gamma_session])
   \<and> \<not> contains_ci nul_substring (str ''Alpha'')
   \<and> \<not> contains_ci nul_substring (str ''/alpha'')
   \<and> find_sessions no_clock nul_label_db (no_criteria\<lparr>project := Some (str ''alp'')\<rparr>) 20
     = Inr []
   \<and> contains_ci (str ''alp'') ([98, 0] @ str ''alp'')
   \<and> length (sessions three_days) = 3
   \<and> find_sessions no_clock three_days (no_criteria\<lparr>project := Some (str ''alp'')\<rparr>) 20 = Inr []
   \<and> find_sessions no_clock three_days (no_criteria\<lparr>exclude_project := Some (str ''alp'')\<rparr>) 20
     = Inr []
   \<and> find_sessions no_clock projects_db (no_criteria\<lparr>project := Some (str ''alp'')\<rparr>) (2 ^ 63)
     = Inl OverflowError
   \<and> find_sessions no_clock projects_db (no_criteria\<lparr>project := Some lone_surrogate\<rparr>) 20
     = Inl UnicodeEncodeError
   \<and> length long_substring = 50000
   \<and> find_sessions no_clock projects_db (no_criteria\<lparr>project := Some long_substring\<rparr>) 20
     = Inl OperationalError"
proof -
  have e1: "find_conditions no_clock (no_criteria\<lparr>project := Some []\<rparr>) = Inr []"
    by (simp add: find_conditions_def no_criteria_def)
  have e2: "find_conditions no_clock (no_criteria\<lparr>exclude_project := Some []\<rparr>) = Inr []"
    by (simp add: find_conditions_def no_criteria_def)
  have all: "select_sessions projects_db [] 20
             = Inr [beta_session, alpha_session, gamma_session]"
    by (simp add: select_sessions_all projects_db_def mk_db_def order_projects sql_limit_def)
  have b20: "bind_params [] 20 = Inr 20"
    by (simp add: bind_params_def bind_int_def)
  have a: "find_sessions no_clock projects_db (no_criteria\<lparr>project := Some []\<rparr>) 20
     = Inr (map (enrich projects_db) [beta_session, alpha_session, gamma_session])"
    by (simp add: find_sessions_def e1 b20 all)
  have b: "find_sessions no_clock projects_db (no_criteria\<lparr>exclude_project := Some []\<rparr>) 20
     = Inr (map (enrich projects_db) [beta_session, alpha_session, gamma_session])"
    by (simp add: find_sessions_def e2 b20 all)
  have c: "find_sessions no_clock projects_db (no_criteria\<lparr>project := Some (str ''a_p'')\<rparr>) 20
     = Inr (map (enrich projects_db) [alpha_session, gamma_session])"
    using substring_ok(2)
    by (simp add: find_project projects_db_def mk_db_def project_like_wild order_alpha_gamma
        sql_limit_def)
  have d: "s_project_name alpha_session = Some (str ''Alpha'')"
    "s_project alpha_session = Some (str ''/alpha'')"
    by (simp_all add: alpha_session_def mk_session_def)
  have e: "\<not> contains_ci (str ''a_p'') (str ''Alpha'')"
    "\<not> contains_ci (str ''a_p'') (str ''/alpha'')"
    by (simp_all add: contains_ci_def starts_with_ci_def ascii_lower_def str_def)
  have f: "find_sessions no_clock projects_db (no_criteria\<lparr>project := Some nul_substring\<rparr>) 20
     = Inr (map (enrich projects_db) [beta_session, alpha_session, gamma_session])"
    using substring_ok(3)
    by (simp add: find_project projects_db_def mk_db_def project_like_nul order_projects
        sql_limit_def)
  have g: "\<not> contains_ci nul_substring (str ''Alpha'')"
    "\<not> contains_ci nul_substring (str ''/alpha'')"
    by (simp_all add: contains_ci_def starts_with_ci_def ascii_lower_def str_def
        nul_substring_def)
  have h: "length (sessions three_days) = 3"
    by (simp add: three_days_def mk_db_def)
  have "\<not> project_like (str ''alp'')
      (mk_session (str ''s4'') (Some ([98, 0] @ str ''alp'')) (Some ([98, 0] @ str ''alp'')) None)"
    by (simp add: like_simps mk_session_def str_def)
  then have v: "find_sessions no_clock nul_label_db (no_criteria\<lparr>project := Some (str ''alp'')\<rparr>)
      20 = Inr []"
    using substring_ok(1)
    by (simp add: find_project nul_label_db_def mk_db_def order_by_desc_def sql_limit_def)
  have w: "contains_ci (str ''alp'') ([98, 0] @ str ''alp'')"
    by (simp add: contains_ci_def starts_with_ci_def ascii_lower_def str_def)
  have i: "find_sessions no_clock three_days (no_criteria\<lparr>project := Some (str ''alp'')\<rparr>) 20
           = Inr []"
    using substring_ok(1)
    by (simp add: find_project three_days_def mk_db_def project_like_null_labels
        order_by_desc_def sql_limit_def)
  have j: "find_sessions no_clock three_days
      (no_criteria\<lparr>exclude_project := Some (str ''alp'')\<rparr>) 20 = Inr []"
    using substring_ok(1)
    by (simp add: find_exclude_project three_days_def mk_db_def project_labels_present_def
        mk_session_def order_by_desc_def sql_limit_def)
  have k: "find_sessions no_clock projects_db (no_criteria\<lparr>project := Some (str ''alp'')\<rparr>)
      (2 ^ 63) = Inl OverflowError"
    using substring_ok(1) by (simp add: find_project_overflow)
  have l: "find_sessions no_clock projects_db (no_criteria\<lparr>project := Some lone_surrogate\<rparr>) 20
     = Inl UnicodeEncodeError"
    by (rule find_project_surrogate) (simp add: lone_surrogate_def is_surrogate_def)
  have m: "length long_substring = 50000"
    unfolding long_substring_def by (rule length_replicate)
  have n: "find_sessions no_clock projects_db (no_criteria\<lparr>project := Some long_substring\<rparr>) 20
     = Inl OperationalError"
    using long_substring_too_long
    by (simp add: find_project_too_long projects_db_def mk_db_def)
  from a b c d e f g v w h i j k l m n show ?thesis by blast
qed

end
